theory Spec2Isabelle
  imports Complex_Main "HOL-Library.Word"
begin

section \<open>Masternode payment votes: data model\<close>

text \<open>
  A shallow embedding of \<^verbatim>\<open>masternode-payments.h\<close> and \<^verbatim>\<open>masternode-payments.cpp\<close>.

  Conventions.
  \<^item> \<^verbatim>\<open>uint256\<close> is a 256-bit word; its \<^verbatim>\<open>+\<close> and \<^verbatim>\<open><<\<close> wrap as in the source.
  \<^item> Block heights, vote counts and amounts (\<^verbatim>\<open>int\<close>, \<^verbatim>\<open>CAmount\<close>) are integers.
    Sums of the local tip height, a roster count and a small constant are taken as they are.
    A difference with an operand that comes off the wire or out of the snapshot file (the
    requested count in \<^verbatim>\<open>Sync\<close>, a stored height in \<^verbatim>\<open>CleanPaymentList\<close>) can leave
    the 32-bit range; there the two's-complement wrap-around of the compiled subtraction is
    written out with \<open>int32\<close>.
  \<^item> Masternode levels and roster counts (\<^verbatim>\<open>unsigned int\<close>, non-negative \<^verbatim>\<open>int\<close>) are
    naturals.
  \<^item> The three \<^verbatim>\<open>std::map\<close>s: the vote index is a key-ordered association list, since
    \<^verbatim>\<open>Sync\<close> and \<^verbatim>\<open>CleanPaymentList\<close> iterate over it; the other two are only looked
    up, stored to and erased from, and are partial functions.
  \<^item> Everything the two files call but do not define (roster manager, chain tip, spork and
    chain parameters, hashing, signature verification, stream decoding) is a field of the
    record \<open>Env\<close>.
  \<^item> Locks, log output, \<^verbatim>\<open>Misbehaving\<close>, \<^verbatim>\<open>AskForMN\<close>, \<^verbatim>\<open>Relay\<close> and the bookkeeping of
    \<^verbatim>\<open>masternodeSync\<close> do not change the ledger and are left out; the exit a call takes is
    returned as a value.
\<close>

type_synonym uint256 = "256 word"
type_synonym byte = "8 word"
type_synonym CScript = "byte list"
type_synonym CAmount = int

record COutPoint =
  out_hash :: uint256
  out_n :: "32 word"

record CTxIn =
  prevout :: COutPoint

record CTxOut =
  nValue :: CAmount
  scriptPubKey :: CScript

record CTransaction =
  vout :: "CTxOut list"

record CMasternodePayee =
  payee_scriptPubKey :: CScript
  masternodeLevel :: nat
  nVotes :: int

record CMasternodeBlockPayees =
  payees_nBlockHeight :: int
  vecPayments :: "CMasternodePayee list"

record CMasternodePaymentWinner =
  vinMasternode :: CTxIn
  nBlockHeight :: int
  payee :: CScript
  vinPayee :: CTxIn
  vchSig :: "byte list"

record CMasternode =
  mn_GetPhase :: "int \<Rightarrow> nat"
  mn_protocolVersion :: int
  mn_collateralScript :: CScript
  mn_pubKeyMasternode :: "byte list"

record CMasternodePayments =
  mapMasternodePayeeVotes :: "(uint256 \<times> CMasternodePaymentWinner) list"
  mapMasternodeBlocks :: "int \<rightharpoonup> CMasternodeBlockPayees"
  mapMasternodesLastVote :: "uint256 \<rightharpoonup> int"

datatype hash_item =
  HScript CScript | HTxIn CTxIn | HInt int | HOutPoint COutPoint

text \<open>
  The collaborators. \<open>Tip\<close> is the height read under \<^verbatim>\<open>TRY_LOCK(cs_main, locked)\<close>: \<open>None\<close>
  when the lock is not obtained or there is no tip. \<open>legacyPayee\<close> is
  \<^verbatim>\<open>ActiveProtocol () < MIN_PEER_PROTO_VERSION_MNW_VIN\<close>. \<open>GetTransactionOut\<close> is the script of
  the output a collateral reference points to, when \<^verbatim>\<open>GetTransaction\<close> finds its transaction.
  \<open>ReadString\<close> and \<open>ReadPayments\<close> decode a string and the two serialized maps from the front
  of a stream, \<open>None\<close> standing for the exception the stream throws.
\<close>

record Env =
  IsBlockchainSynced :: bool
  fLiteMode :: bool
  ActiveProtocol :: int
  legacyPayee :: bool
  peer_nVersion :: int
  Tip :: "int option"
  Find :: "CTxIn \<Rightarrow> CMasternode option"
  FindScript :: "CScript \<Rightarrow> CMasternode option"
  GetTransactionOut :: "COutPoint \<Rightarrow> CScript option"
  CountEnabledOnLevel :: "nat \<Rightarrow> nat"
  CountEnabled :: nat
  mnodeman_size :: nat
  mnodeman_stable_size :: nat
  MasternodeCountDrift :: int
  GetMasternodeRank :: "CTxIn \<Rightarrow> int \<Rightarrow> int \<Rightarrow> int"
  VerifyMessage :: "byte list \<Rightarrow> byte list \<Rightarrow> COutPoint \<times> int \<times> CScript \<Rightarrow> bool"
  GetBlockHash :: "int \<Rightarrow> uint256 option"
  HashWriter :: "hash_item list \<Rightarrow> uint256"
  SPORK_8_MASTERNODE_PAYMENT_ENFORCEMENT :: bool
  GetBlockValue :: "int \<Rightarrow> CAmount"
  getMasternodePhaseCount :: "int \<Rightarrow> nat"
  GetMasternodePayment :: "int \<Rightarrow> nat \<Rightarrow> CAmount \<Rightarrow> int \<Rightarrow> bool \<Rightarrow> CAmount"
  Hash :: "byte list \<Rightarrow> byte list"
  MessageStart :: "byte list"
  ReadString :: "byte list \<Rightarrow> (string \<times> byte list) option"
  ReadPayments :: "byte list \<Rightarrow>
     ((uint256 \<times> CMasternodePaymentWinner) list \<times> (int \<rightharpoonup> CMasternodeBlockPayees)) option"

definition MNPAYMENTS_SIGNATURES_REQUIRED :: int where
  "MNPAYMENTS_SIGNATURES_REQUIRED = 6"

definition MNPAYMENTS_SIGNATURES_TOTAL :: int where
  "MNPAYMENTS_SIGNATURES_TOTAL = 10"

text \<open>
  \<^verbatim>\<open>int (count * 1.25)\<close>: the product is exact in double precision for every 32-bit count,
  and the conversion to \<^verbatim>\<open>int\<close> drops the fraction.
\<close>

definition times_1_25 :: "nat \<Rightarrow> int" where
  "times_1_25 c = (5 * int c) div 4"

text \<open>
  The value a 32-bit \<^verbatim>\<open>int\<close> holds after an operation whose exact result is \<open>x\<close>, and
  the exact results that need no wrap-around.
\<close>

definition int32 :: "int \<Rightarrow> int" where
  "int32 x = (x + 2147483648) mod 4294967296 - 2147483648"

definition fits_int32 :: "int \<Rightarrow> bool" where
  "fits_int32 x \<longleftrightarrow> - 2147483648 \<le> x \<and> x < 2147483648"

section \<open>The tally of one height\<close>

text \<open>\<^verbatim>\<open>CMasternodeBlockPayees::AddPayee (payeeIn, masternodeLevel, nIncrement)\<close>.\<close>

fun AddPayee_loop :: "CMasternodePayee list \<Rightarrow> CScript \<Rightarrow> nat \<Rightarrow> int \<Rightarrow> CMasternodePayee list" where
  "AddPayee_loop [] payeeIn level nIncrement =
     [\<lparr>payee_scriptPubKey = payeeIn, masternodeLevel = level, nVotes = nIncrement\<rparr>]"
| "AddPayee_loop (p # ps) payeeIn level nIncrement =
     (if payee_scriptPubKey p = payeeIn \<and> masternodeLevel p = level
      then p\<lparr>nVotes := nVotes p + nIncrement\<rparr> # ps
      else p # AddPayee_loop ps payeeIn level nIncrement)"

definition AddPayee :: "CMasternodeBlockPayees \<Rightarrow> CScript \<Rightarrow> nat \<Rightarrow> int \<Rightarrow> CMasternodeBlockPayees" where
  "AddPayee b payeeIn level nIncrement =
     b\<lparr>vecPayments := AddPayee_loop (vecPayments b) payeeIn level nIncrement\<rparr>"

text \<open>
  \<^verbatim>\<open>CMasternodeBlockPayees::GetPayee (payee, masternodeLevel)\<close>: the loop carries the best
  script so far and its vote count, starting from \<^verbatim>\<open>-1\<close>; the result is \<open>None\<close> where the
  source returns false.
\<close>

fun GetPayee_loop :: "CMasternodePayee list \<Rightarrow> nat \<Rightarrow> CScript \<Rightarrow> int \<Rightarrow> CScript \<times> int" where
  "GetPayee_loop [] level best n = (best, n)"
| "GetPayee_loop (p # ps) level best n =
     (if masternodeLevel p = level \<and> nVotes p > n
      then GetPayee_loop ps level (payee_scriptPubKey p) (nVotes p)
      else GetPayee_loop ps level best n)"

definition GetPayee :: "CMasternodeBlockPayees \<Rightarrow> nat \<Rightarrow> CScript option" where
  "GetPayee b level =
     (case GetPayee_loop (vecPayments b) level [] (- 1) of
        (best, n) \<Rightarrow> if n > - 1 then Some best else None)"

section \<open>Validating the payment of a block\<close>

text \<open>The first inner loop of \<^verbatim>\<open>CMasternodeBlockPayees::IsTransactionValid\<close>.\<close>

fun max_signatures :: "CMasternodePayee list \<Rightarrow> nat \<Rightarrow> int \<Rightarrow> int" where
  "max_signatures [] phase nMaxSignatures = nMaxSignatures"
| "max_signatures (p # ps) phase nMaxSignatures =
     max_signatures ps phase
       (if nVotes p \<ge> nMaxSignatures \<and> masternodeLevel p = phase
        then nVotes p else nMaxSignatures)"

text \<open>The loop over \<^verbatim>\<open>txNew.vout\<close> for one payee: true when it leaves by \<^verbatim>\<open>break\<close>.\<close>

fun payee_paid :: "CTxOut list \<Rightarrow> CScript \<Rightarrow> CAmount \<Rightarrow> bool" where
  "payee_paid [] script required = False"
| "payee_paid (out # outs) script required =
     (if script = scriptPubKey out
      then (if nValue out \<ge> required then True else payee_paid outs script required)
      else payee_paid outs script required)"

text \<open>The loop over the payees of one level: the final value of \<^verbatim>\<open>hasLevelPayment\<close>.\<close>

fun has_level_payment :: "CMasternodePayee list \<Rightarrow> CTxOut list \<Rightarrow> nat \<Rightarrow> CAmount \<Rightarrow> bool" where
  "has_level_payment [] outs phase required = False"
| "has_level_payment (p # ps) outs phase required =
     (if masternodeLevel p \<noteq> phase then has_level_payment ps outs phase required
      else if nVotes p < MNPAYMENTS_SIGNATURES_REQUIRED then has_level_payment ps outs phase required
      else if payee_paid outs (payee_scriptPubKey p) required then True
      else has_level_payment ps outs phase required)"

definition nMasternode_Drift_Count :: "Env \<Rightarrow> int" where
  "nMasternode_Drift_Count env =
     (if SPORK_8_MASTERNODE_PAYMENT_ENFORCEMENT env
      then int (mnodeman_stable_size env) + MasternodeCountDrift env
      else int (mnodeman_size env) + MasternodeCountDrift env)"

definition requiredMasternodePayment :: "Env \<Rightarrow> CMasternodeBlockPayees \<Rightarrow> nat \<Rightarrow> CAmount" where
  "requiredMasternodePayment env b phase =
     GetMasternodePayment env (payees_nBlockHeight b) phase
       (GetBlockValue env (payees_nBlockHeight b)) (nMasternode_Drift_Count env) False"

text \<open>One turn of the loop over the levels: the new value of \<^verbatim>\<open>transactionCorrect\<close>.\<close>

definition phase_body :: "Env \<Rightarrow> CMasternodeBlockPayees \<Rightarrow> CTransaction \<Rightarrow> bool \<Rightarrow> nat \<Rightarrow> bool" where
  "phase_body env b txNew transactionCorrect phase =
     (if max_signatures (vecPayments b) phase 0 < MNPAYMENTS_SIGNATURES_REQUIRED
      then transactionCorrect
      else if \<not> has_level_payment (vecPayments b) (vout txNew) phase
                 (requiredMasternodePayment env b phase)
      then False
      else transactionCorrect)"

definition BlockPayees_IsTransactionValid :: "Env \<Rightarrow> CMasternodeBlockPayees \<Rightarrow> CTransaction \<Rightarrow> bool" where
  "BlockPayees_IsTransactionValid env b txNew =
     foldl (phase_body env b txNew) True
       [1 ..< Suc (getMasternodePhaseCount env (payees_nBlockHeight b))]"

text \<open>\<^verbatim>\<open>CMasternodePayments::IsTransactionValid (txNew, nBlockHeight)\<close>.\<close>

definition IsTransactionValid :: "Env \<Rightarrow> CMasternodePayments \<Rightarrow> CTransaction \<Rightarrow> int \<Rightarrow> bool" where
  "IsTransactionValid env s txNew h =
     (case mapMasternodeBlocks s h of
        Some b \<Rightarrow> BlockPayees_IsTransactionValid env b txNew
      | None \<Rightarrow> True)"

section \<open>One vote\<close>

definition GetHash :: "Env \<Rightarrow> CMasternodePaymentWinner \<Rightarrow> uint256" where
  "GetHash env w =
     HashWriter env
       [if legacyPayee env then HScript (payee w) else HTxIn (vinPayee w),
        HInt (nBlockHeight w),
        HOutPoint (prevout (vinMasternode w))]"

definition GetPhase :: "Env \<Rightarrow> CMasternodePaymentWinner \<Rightarrow> nat" where
  "GetPhase env w =
     (case Find env (vinMasternode w) of
        Some pmn \<Rightarrow> mn_GetPhase pmn (nBlockHeight w)
      | None \<Rightarrow> 0)"

definition GetPayeeScript :: "Env \<Rightarrow> CMasternodePaymentWinner \<Rightarrow> CScript" where
  "GetPayeeScript env w =
     (if legacyPayee env then payee w
      else case Find env (vinPayee w) of
             Some pmn \<Rightarrow> mn_collateralScript pmn
           | None \<Rightarrow>
               (case GetTransactionOut env (prevout (vinPayee w)) of
                  Some script \<Rightarrow> script
                | None \<Rightarrow> []))"

definition GetPayeePhase :: "Env \<Rightarrow> CMasternodePaymentWinner \<Rightarrow> nat" where
  "GetPayeePhase env w =
     (case (if legacyPayee env then FindScript env (payee w) else Find env (vinPayee w)) of
        Some pmn \<Rightarrow> mn_GetPhase pmn (nBlockHeight w)
      | None \<Rightarrow> 0)"

definition IsValid :: "Env \<Rightarrow> CMasternodePaymentWinner \<Rightarrow> bool" where
  "IsValid env w =
     (case Find env (vinMasternode w) of
        None \<Rightarrow> False
      | Some pmn \<Rightarrow>
          if mn_protocolVersion pmn < ActiveProtocol env then False
          else if GetMasternodeRank env (vinMasternode w) (nBlockHeight w - 100) (ActiveProtocol env)
                    > MNPAYMENTS_SIGNATURES_TOTAL
          then False
          else True)"

definition SignatureValid :: "Env \<Rightarrow> CMasternodePaymentWinner \<Rightarrow> bool" where
  "SignatureValid env w =
     (case Find env (vinMasternode w) of
        Some pmn \<Rightarrow>
          VerifyMessage env (mn_pubKeyMasternode pmn) (vchSig w)
            (prevout (vinMasternode w), nBlockHeight w, GetPayeeScript env w)
      | None \<Rightarrow> False)"

section \<open>The ledger\<close>

text \<open>Storing to the key-ordered vote index, as \<^verbatim>\<open>operator[]\<close> followed by assignment.\<close>

fun map_store :: "uint256 \<Rightarrow> 'v \<Rightarrow> (uint256 \<times> 'v) list \<Rightarrow> (uint256 \<times> 'v) list" where
  "map_store k v [] = [(k, v)]"
| "map_store k v ((k', v') # rest) =
     (if k < k' then (k, v) # (k', v') # rest
      else if k = k' then (k, v) # rest
      else (k', v') # map_store k v rest)"

text \<open>The ledger \<^verbatim>\<open>CMasternodePayments ()\<close> constructs: three empty maps.\<close>

definition empty_ledger :: CMasternodePayments where
  "empty_ledger = \<lparr>mapMasternodePayeeVotes = [], mapMasternodeBlocks = Map.empty,
                    mapMasternodesLastVote = Map.empty\<rparr>"

definition Clear :: "CMasternodePayments \<Rightarrow> CMasternodePayments" where
  "Clear s = s\<lparr>mapMasternodeBlocks := Map.empty, mapMasternodePayeeVotes := []\<rparr>"

text \<open>
  \<^verbatim>\<open>CanVote (CMasternodePaymentWinner winner)\<close>: the key is
  \<^verbatim>\<open>((outMasternode.hash + outMasternode.n) << 4) + voteForPhase\<close> in 256-bit arithmetic.
\<close>

definition vote_key :: "COutPoint \<Rightarrow> nat \<Rightarrow> uint256" where
  "vote_key outMasternode voteForPhase =
     push_bit 4 (out_hash outMasternode + ucast (out_n outMasternode)) + of_nat voteForPhase"

definition CanVote_key :: "Env \<Rightarrow> CMasternodePaymentWinner \<Rightarrow> uint256" where
  "CanVote_key env w = vote_key (prevout (vinMasternode w)) (GetPayeePhase env w)"

definition CanVote :: "Env \<Rightarrow> CMasternodePayments \<Rightarrow> CMasternodePaymentWinner
    \<Rightarrow> bool \<times> CMasternodePayments" where
  "CanVote env s w =
     (let key = CanVote_key env w;
          recorded = s\<lparr>mapMasternodesLastVote := (mapMasternodesLastVote s)(key \<mapsto> nBlockHeight w)\<rparr>
      in case mapMasternodesLastVote s key of
           Some lastHeight \<Rightarrow> if lastHeight = nBlockHeight w then (False, s) else (True, recorded)
         | None \<Rightarrow> (True, recorded))"

definition AddWinningMasternode :: "Env \<Rightarrow> CMasternodePayments \<Rightarrow> CMasternodePaymentWinner
    \<Rightarrow> bool \<times> CMasternodePayments" where
  "AddWinningMasternode env s winnerIn =
     (case GetBlockHash env (nBlockHeight winnerIn - 100) of
        None \<Rightarrow> (False, s)
      | Some blockHash \<Rightarrow>
          if map_of (mapMasternodePayeeVotes s) (GetHash env winnerIn) \<noteq> None then (False, s)
          else
            let blockPayees =
                  (case mapMasternodeBlocks s (nBlockHeight winnerIn) of
                     Some b \<Rightarrow> b
                   | None \<Rightarrow> \<lparr>payees_nBlockHeight = nBlockHeight winnerIn, vecPayments = []\<rparr>)
            in (True,
                s\<lparr>mapMasternodePayeeVotes :=
                    map_store (GetHash env winnerIn) winnerIn (mapMasternodePayeeVotes s),
                  mapMasternodeBlocks :=
                    (mapMasternodeBlocks s)(nBlockHeight winnerIn \<mapsto>
                       AddPayee blockPayees (GetPayeeScript env winnerIn)
                         (GetPayeePhase env winnerIn) 1)\<rparr>))"

text \<open>
  The \<^verbatim>\<open>"mnw"\<close> branch of \<^verbatim>\<open>ProcessMessageMasternodePayments\<close>. The function returns
  nothing; the model names the \<^verbatim>\<open>return\<close> it leaves by.
\<close>

datatype mnw_exit =
  NotProcessed | Incomplete | Duplicate | OutOfWindow | NotValid
  | AlreadyVoted | BadSignature | NotAdded | Accepted

definition ProcessMessage_mnw :: "Env \<Rightarrow> CMasternodePayments \<Rightarrow> CMasternodePaymentWinner
    \<Rightarrow> mnw_exit \<times> CMasternodePayments" where
  "ProcessMessage_mnw env s winner =
     (if \<not> IsBlockchainSynced env then (NotProcessed, s)
      else if fLiteMode env then (NotProcessed, s)
      else if peer_nVersion env < ActiveProtocol env then (NotProcessed, s)
      else if GetPhase env winner = 0 then (Incomplete, s)
      else if GetPayeePhase env winner = 0 then (Incomplete, s)
      else (case Tip env of
        None \<Rightarrow> (NotProcessed, s)
      | Some nHeight \<Rightarrow>
          if map_of (mapMasternodePayeeVotes s) (GetHash env winner) \<noteq> None then (Duplicate, s)
          else
            let nFirstBlock =
                  nHeight - times_1_25 (CountEnabledOnLevel env (GetPayeePhase env winner))
            in if nBlockHeight winner < nFirstBlock \<or> nBlockHeight winner > nHeight + 20
               then (OutOfWindow, s)
               else if \<not> IsValid env winner then (NotValid, s)
               else (case CanVote env s winner of
                 (False, s') \<Rightarrow> (AlreadyVoted, s')
               | (True, s') \<Rightarrow>
                   if \<not> SignatureValid env winner then (BadSignature, s')
                   else (case AddWinningMasternode env s' winner of
                     (True, s'') \<Rightarrow> (Accepted, s'')
                   | (False, s'') \<Rightarrow> (NotAdded, s'')))))"

text \<open>A run of vote messages, each with the environment it meets; the accepted ones are kept.\<close>

fun add_all :: "(Env \<times> CMasternodePaymentWinner) list \<Rightarrow> CMasternodePayments
    \<Rightarrow> (Env \<times> CMasternodePaymentWinner) list \<times> CMasternodePayments" where
  "add_all [] s = ([], s)"
| "add_all ((env, w) # calls) s =
     (case ProcessMessage_mnw env s w of
        (r, s') \<Rightarrow>
          (case add_all calls s' of
             (accepted, s'') \<Rightarrow> (if r = Accepted then (env, w) # accepted else accepted, s'')))"

definition accepted_count :: "(Env \<times> CMasternodePaymentWinner) list \<Rightarrow> CMasternodePayments
    \<Rightarrow> COutPoint \<Rightarrow> nat \<Rightarrow> int \<Rightarrow> nat" where
  "accepted_count calls s voter tier h =
     length (filter (\<lambda>(env, w). prevout (vinMasternode w) = voter
                                \<and> GetPayeePhase env w = tier \<and> nBlockHeight w = h)
               (fst (add_all calls s)))"

text \<open>
  The heights a last-vote key meets in a run of messages, in order, and the height the
  ledger holds for the key before the run (if any).
\<close>

definition key_heights :: "uint256 \<Rightarrow> (Env \<times> CMasternodePaymentWinner) list \<Rightarrow> int list" where
  "key_heights k calls =
     map (\<lambda>(env, w). nBlockHeight w) (filter (\<lambda>(env, w). CanVote_key env w = k) calls)"

definition guard_heights :: "CMasternodePayments \<Rightarrow> uint256 \<Rightarrow> int list" where
  "guard_heights s k = (case mapMasternodesLastVote s k of None \<Rightarrow> [] | Some g \<Rightarrow> [g])"

section \<open>Retention\<close>

fun CleanPaymentList_loop :: "int \<Rightarrow> int \<Rightarrow> (uint256 \<times> CMasternodePaymentWinner) list
    \<Rightarrow> (int \<rightharpoonup> CMasternodeBlockPayees)
    \<Rightarrow> (uint256 \<times> CMasternodePaymentWinner) list \<times> (int \<rightharpoonup> CMasternodeBlockPayees)" where
  "CleanPaymentList_loop nHeight nLimit [] blocks = ([], blocks)"
| "CleanPaymentList_loop nHeight nLimit ((k, winner) # it) blocks =
     (if int32 (nHeight - nBlockHeight winner) > nLimit
      then CleanPaymentList_loop nHeight nLimit it (blocks(nBlockHeight winner := None))
      else case CleanPaymentList_loop nHeight nLimit it blocks of
             (votes, blocks') \<Rightarrow> ((k, winner) # votes, blocks'))"

definition CleanPaymentList :: "Env \<Rightarrow> CMasternodePayments \<Rightarrow> CMasternodePayments" where
  "CleanPaymentList env s =
     (case Tip env of
        None \<Rightarrow> s
      | Some nHeight \<Rightarrow>
          let nLimit = max (times_1_25 (mnodeman_size env)) 1000
          in case CleanPaymentList_loop nHeight nLimit
                    (mapMasternodePayeeVotes s) (mapMasternodeBlocks s) of
               (votes, blocks) \<Rightarrow>
                 s\<lparr>mapMasternodePayeeVotes := votes, mapMasternodeBlocks := blocks\<rparr>)"

section \<open>Answering a sync request\<close>

datatype peer_message =
  Inv uint256 | SyncStatusCount int

fun Sync_loop :: "Env \<Rightarrow> int \<Rightarrow> int \<Rightarrow> (uint256 \<times> CMasternodePaymentWinner) list
    \<Rightarrow> peer_message list \<Rightarrow> int \<Rightarrow> peer_message list \<times> int" where
  "Sync_loop env nHeight nCountNeeded [] sent nInvCount = (sent, nInvCount)"
| "Sync_loop env nHeight nCountNeeded ((k, winner) # it) sent nInvCount =
     (if nBlockHeight winner \<ge> int32 (nHeight - nCountNeeded)
          \<and> nBlockHeight winner \<le> nHeight + 20
      then Sync_loop env nHeight nCountNeeded it (sent @ [Inv (GetHash env winner)]) (nInvCount + 1)
      else Sync_loop env nHeight nCountNeeded it sent nInvCount)"

definition Sync :: "Env \<Rightarrow> CMasternodePayments \<Rightarrow> int \<Rightarrow> peer_message list" where
  "Sync env s nCountNeeded =
     (case Tip env of
        None \<Rightarrow> []
      | Some nHeight \<Rightarrow>
          let nCount = times_1_25 (CountEnabled env);
              nCountNeeded' = (if nCountNeeded > nCount then nCount else nCountNeeded)
          in case Sync_loop env nHeight nCountNeeded' (mapMasternodePayeeVotes s) [] 0 of
               (sent, nInvCount) \<Rightarrow> sent @ [SyncStatusCount nInvCount])"

section \<open>Reading the snapshot file\<close>

datatype ReadResult =
  Ok | FileError | HashReadError | IncorrectHash
  | IncorrectMagicMessage | IncorrectMagicNumber | IncorrectFormat

definition strMagicMessage :: string where
  "strMagicMessage = ''MasternodePayments''"

text \<open>
  \<^verbatim>\<open>CMasternodePaymentDB::Read\<close>. The file is its bytes, \<open>None\<close> when it cannot be opened.
  \<^verbatim>\<open>sizeof(uint256)\<close> is 32; the checksums are compared as the 32 bytes they are stored as.
  Decoding the payload fills the two serialized maps of the ledger, replacing what they held;
  an exception from the stream, at any of the three decoding steps, is caught, the ledger is
  \<^verbatim>\<open>Clear\<close>ed and the result is \<^verbatim>\<open>IncorrectFormat\<close>.
\<close>

definition Read :: "Env \<Rightarrow> byte list option \<Rightarrow> CMasternodePayments \<Rightarrow> bool
    \<Rightarrow> ReadResult \<times> CMasternodePayments" where
  "Read env file objToLoad fDryRun =
     (case file of
        None \<Rightarrow> (FileError, objToLoad)
      | Some bytes \<Rightarrow>
          let dataSize = length bytes - 32;
              vchData = take dataSize bytes;
              hashIn = drop dataSize bytes
          in if length hashIn < 32 then (HashReadError, objToLoad)
             else if hashIn \<noteq> Hash env vchData then (IncorrectHash, objToLoad)
             else (case ReadString env vchData of
               None \<Rightarrow> (IncorrectFormat, Clear objToLoad)
             | Some (strMagicMessageTmp, ssObj1) \<Rightarrow>
                 if strMagicMessage \<noteq> strMagicMessageTmp then (IncorrectMagicMessage, objToLoad)
                 else if length ssObj1 < 4 then (IncorrectFormat, Clear objToLoad)
                 else if take 4 ssObj1 \<noteq> MessageStart env then (IncorrectMagicNumber, objToLoad)
                 else (case ReadPayments env (drop 4 ssObj1) of
                   None \<Rightarrow> (IncorrectFormat, Clear objToLoad)
                 | Some (votes, blocks) \<Rightarrow>
                     let loaded = objToLoad\<lparr>mapMasternodePayeeVotes := votes,
                                            mapMasternodeBlocks := blocks\<rparr>
                     in (Ok, if \<not> fDryRun then CleanPaymentList env loaded else loaded))))"

section \<open>Sample data\<close>

text \<open>
  Concrete collaborators and votes on which the statements below are evaluated: a tip at
  height 1000, eight enabled masternodes on every level, a roster of 100, one level, and a
  reward of 50 per level.
\<close>

definition script_P :: CScript where
  "script_P = [1]"

definition script_Q :: CScript where
  "script_Q = [2]"

definition sample_mn :: CMasternode where
  "sample_mn = \<lparr>mn_GetPhase = (\<lambda>h. 1), mn_protocolVersion = 70920,
                 mn_collateralScript = script_P, mn_pubKeyMasternode = []\<rparr>"

definition sample_hash :: "hash_item list \<Rightarrow> uint256" where
  "sample_hash items =
     (case items of
        HTxIn vin # HInt h # rest \<Rightarrow> out_hash (prevout vin) * 65536 + word_of_int h
      | _ \<Rightarrow> 0)"

definition sample_ReadString :: "byte list \<Rightarrow> (string \<times> byte list) option" where
  "sample_ReadString bytes =
     (case bytes of
        [] \<Rightarrow> None
      | b # rest \<Rightarrow> if b = 1 then Some (strMagicMessage, rest) else Some ([], rest))"

definition sample_env :: Env where
  "sample_env =
     \<lparr>IsBlockchainSynced = True, fLiteMode = False, ActiveProtocol = 70920,
      legacyPayee = False, peer_nVersion = 70920, Tip = Some 1000,
      Find = (\<lambda>vin. Some sample_mn), FindScript = (\<lambda>script. None),
      GetTransactionOut = (\<lambda>outpoint. None),
      CountEnabledOnLevel = (\<lambda>level. 8), CountEnabled = 8,
      mnodeman_size = 100, mnodeman_stable_size = 100, MasternodeCountDrift = 20,
      GetMasternodeRank = (\<lambda>vin h proto. 1),
      VerifyMessage = (\<lambda>pubkey sig msg. True),
      GetBlockHash = (\<lambda>h. Some 1), HashWriter = sample_hash,
      SPORK_8_MASTERNODE_PAYMENT_ENFORCEMENT = True,
      GetBlockValue = (\<lambda>h. 100), getMasternodePhaseCount = (\<lambda>h. 1),
      GetMasternodePayment = (\<lambda>h level reward drift zstake. 50),
      Hash = (\<lambda>bytes. replicate 32 (of_nat (length bytes))),
      MessageStart = [1, 2, 3, 4],
      ReadString = sample_ReadString, ReadPayments = (\<lambda>bytes. None)\<rparr>"

definition vote_at :: "uint256 \<Rightarrow> int \<Rightarrow> uint256 \<Rightarrow> CMasternodePaymentWinner" where
  "vote_at voter h payeeRef =
     \<lparr>vinMasternode = \<lparr>prevout = \<lparr>out_hash = voter, out_n = 0\<rparr>\<rparr>,
      nBlockHeight = h, payee = [],
      vinPayee = \<lparr>prevout = \<lparr>out_hash = payeeRef, out_n = 0\<rparr>\<rparr>,
      vchSig = []\<rparr>"

definition tally_quorum :: CMasternodeBlockPayees where
  "tally_quorum =
     \<lparr>payees_nBlockHeight = 995,
      vecPayments = [\<lparr>payee_scriptPubKey = script_P, masternodeLevel = 1, nVotes = 6\<rparr>]\<rparr>"

definition tally_two_quorums :: CMasternodeBlockPayees where
  "tally_two_quorums =
     \<lparr>payees_nBlockHeight = 995,
      vecPayments = [\<lparr>payee_scriptPubKey = script_P, masternodeLevel = 1, nVotes = 8\<rparr>,
                     \<lparr>payee_scriptPubKey = script_Q, masternodeLevel = 1, nVotes = 6\<rparr>]\<rparr>"

definition tally_thin :: CMasternodeBlockPayees where
  "tally_thin =
     \<lparr>payees_nBlockHeight = 995,
      vecPayments = [\<lparr>payee_scriptPubKey = script_P, masternodeLevel = 1, nVotes = 3\<rparr>]\<rparr>"

definition tx_paying :: "CScript \<Rightarrow> CAmount \<Rightarrow> CTransaction" where
  "tx_paying script amount = \<lparr>vout = [\<lparr>nValue = amount, scriptPubKey = script\<rparr>]\<rparr>"

text \<open>The ledger after the given votes were added, in order, by \<open>AddWinningMasternode\<close>.\<close>

definition ledger_of :: "CMasternodePaymentWinner list \<Rightarrow> CMasternodePayments" where
  "ledger_of ws = foldl (\<lambda>s w. snd (AddWinningMasternode sample_env s w)) empty_ledger ws"

section \<open>Properties\<close>

subsection \<open>Payment validation\<close>

lemma times_1_25_floor: "times_1_25 c = \<lfloor>1.25 * real c\<rfloor>"
proof -
  have "1.25 * real c = real_of_int (5 * int c) / real_of_int 4"
    by simp
  then have "\<lfloor>1.25 * real c\<rfloor> = (5 * int c) div 4"
    by (simp only: floor_divide_of_int_eq)
  then show ?thesis
    by (simp add: times_1_25_def)
qed

lemma max_signatures_ge:
  "t \<le> max_signatures ps phase m \<longleftrightarrow>
     t \<le> m \<or> (\<exists>p \<in> set ps. masternodeLevel p = phase \<and> t \<le> nVotes p)"
  by (induction ps arbitrary: m) auto

lemma payee_paid_iff:
  "payee_paid outs script required \<longleftrightarrow>
     (\<exists>out \<in> set outs. scriptPubKey out = script \<and> required \<le> nValue out)"
  by (induction outs) auto

lemma has_level_payment_iff:
  "has_level_payment ps outs phase required \<longleftrightarrow>
     (\<exists>p \<in> set ps. masternodeLevel p = phase \<and> MNPAYMENTS_SIGNATURES_REQUIRED \<le> nVotes p
        \<and> payee_paid outs (payee_scriptPubKey p) required)"
  by (induction ps) auto

lemma foldl_phase_body:
  "foldl (phase_body env b txNew) correct phases \<longleftrightarrow>
     correct \<and> (\<forall>phase \<in> set phases. phase_body env b txNew True phase)"
  by (induction phases arbitrary: correct) (auto simp: phase_body_def)

lemma GetPayee_loop_spec:
  "GetPayee_loop ps level best n = (r, m) \<Longrightarrow>
     n \<le> m \<and> (\<forall>p \<in> set ps. masternodeLevel p = level \<longrightarrow> nVotes p \<le> m)
     \<and> ((r = best \<and> m = n) \<or>
         (\<exists>p \<in> set ps. masternodeLevel p = level \<and> payee_scriptPubKey p = r \<and> nVotes p = m))"
proof (induction ps arbitrary: best n)
  case Nil
  then show ?case by simp
next
  case (Cons p ps)
  show ?case
  proof (cases "masternodeLevel p = level \<and> nVotes p > n")
    case True
    with Cons.prems have "GetPayee_loop ps level (payee_scriptPubKey p) (nVotes p) = (r, m)"
      by simp
    from Cons.IH [OF this] True show ?thesis by auto
  next
    case False
    with Cons.prems have "GetPayee_loop ps level best n = (r, m)"
      by auto
    from Cons.IH [OF this] False show ?thesis by auto
  qed
qed

lemma GetPayee_quorum:
  assumes "\<exists>p \<in> set (vecPayments b). masternodeLevel p = phase
             \<and> MNPAYMENTS_SIGNATURES_REQUIRED \<le> nVotes p"
  shows "\<exists>p \<in> set (vecPayments b). masternodeLevel p = phase
           \<and> MNPAYMENTS_SIGNATURES_REQUIRED \<le> nVotes p
           \<and> GetPayee b phase = Some (payee_scriptPubKey p)"
proof -
  obtain r m where loop: "GetPayee_loop (vecPayments b) phase [] (- 1) = (r, m)"
    by (cases "GetPayee_loop (vecPayments b) phase [] (- 1)")
  note spec = GetPayee_loop_spec [OF loop]
  from assms spec have m: "MNPAYMENTS_SIGNATURES_REQUIRED \<le> m"
    by force
  then have "m \<noteq> - 1"
    by (simp add: MNPAYMENTS_SIGNATURES_REQUIRED_def)
  with spec obtain p where p: "p \<in> set (vecPayments b)" "masternodeLevel p = phase"
      "payee_scriptPubKey p = r" "nVotes p = m"
    by blast
  from m have "GetPayee b phase = Some r"
    by (simp add: GetPayee_def loop MNPAYMENTS_SIGNATURES_REQUIRED_def)
  with p m show ?thesis
    by blast
qed

lemma phase_body_quorum:
  assumes "\<exists>p \<in> set (vecPayments b). masternodeLevel p = phase
             \<and> MNPAYMENTS_SIGNATURES_REQUIRED \<le> nVotes p"
  shows "phase_body env b txNew True phase \<longleftrightarrow>
           (\<exists>p \<in> set (vecPayments b). masternodeLevel p = phase
              \<and> MNPAYMENTS_SIGNATURES_REQUIRED \<le> nVotes p
              \<and> payee_paid (vout txNew) (payee_scriptPubKey p)
                    (requiredMasternodePayment env b phase))"
proof -
  from assms have "MNPAYMENTS_SIGNATURES_REQUIRED \<le> max_signatures (vecPayments b) phase 0"
    by (simp add: max_signatures_ge)
  then show ?thesis
    by (auto simp: phase_body_def has_level_payment_iff)
qed

lemma phase_body_no_quorum:
  assumes "\<forall>p \<in> set (vecPayments b). masternodeLevel p = phase
             \<longrightarrow> nVotes p < MNPAYMENTS_SIGNATURES_REQUIRED"
  shows "phase_body env b txNew correct phase = correct"
proof -
  have "\<not> MNPAYMENTS_SIGNATURES_REQUIRED \<le> max_signatures (vecPayments b) phase 0"
    using assms by (auto simp: max_signatures_ge MNPAYMENTS_SIGNATURES_REQUIRED_def)
  then show ?thesis
    by (simp add: phase_body_def)
qed

lemma BlockPayees_IsTransactionValid_iff:
  "BlockPayees_IsTransactionValid env b txNew \<longleftrightarrow>
     (\<forall>phase \<in> {1 .. getMasternodePhaseCount env (payees_nBlockHeight b)}.
        phase_body env b txNew True phase)"
  by (auto simp: BlockPayees_IsTransactionValid_def foldl_phase_body)

text \<open>
  C1 (amended): the result is the conjunction of the verdicts of the levels
  \<open>1 .. getMasternodePhaseCount\<close>. On a level where some payee has at least six votes, the
  verdict is true exactly when the transaction has an output of at least the required amount
  to some payee of that level with at least six votes. The leading payee of the level is one
  of them, so paying it the required amount is enough; it is necessary when every payee of
  the level with six votes carries the leading script.
\<close>

theorem validate_payment_quorum:
  "(BlockPayees_IsTransactionValid env b txNew \<longleftrightarrow>
      (\<forall>phase \<in> {1 .. getMasternodePhaseCount env (payees_nBlockHeight b)}.
         phase_body env b txNew True phase))
   \<and> ((\<exists>p \<in> set (vecPayments b). masternodeLevel p = phase
          \<and> MNPAYMENTS_SIGNATURES_REQUIRED \<le> nVotes p) \<longrightarrow>
        (phase_body env b txNew True phase \<longleftrightarrow>
           (\<exists>p \<in> set (vecPayments b). masternodeLevel p = phase
              \<and> MNPAYMENTS_SIGNATURES_REQUIRED \<le> nVotes p
              \<and> (\<exists>out \<in> set (vout txNew). scriptPubKey out = payee_scriptPubKey p
                    \<and> requiredMasternodePayment env b phase \<le> nValue out)))
        \<and> (\<exists>leader. GetPayee b phase = Some leader
              \<and> (payee_paid (vout txNew) leader (requiredMasternodePayment env b phase)
                    \<longrightarrow> phase_body env b txNew True phase)
              \<and> ((\<forall>q \<in> set (vecPayments b). masternodeLevel q = phase
                      \<and> MNPAYMENTS_SIGNATURES_REQUIRED \<le> nVotes q
                      \<longrightarrow> payee_scriptPubKey q = leader)
                    \<longrightarrow> (phase_body env b txNew True phase \<longleftrightarrow>
                          payee_paid (vout txNew) leader
                            (requiredMasternodePayment env b phase)))))"
proof (intro conjI impI)
  show "BlockPayees_IsTransactionValid env b txNew \<longleftrightarrow>
      (\<forall>phase \<in> {1 .. getMasternodePhaseCount env (payees_nBlockHeight b)}.
         phase_body env b txNew True phase)"
    by (rule BlockPayees_IsTransactionValid_iff)
next
  assume q: "\<exists>p \<in> set (vecPayments b). masternodeLevel p = phase
          \<and> MNPAYMENTS_SIGNATURES_REQUIRED \<le> nVotes p"
  then show "phase_body env b txNew True phase \<longleftrightarrow>
           (\<exists>p \<in> set (vecPayments b). masternodeLevel p = phase
              \<and> MNPAYMENTS_SIGNATURES_REQUIRED \<le> nVotes p
              \<and> (\<exists>out \<in> set (vout txNew). scriptPubKey out = payee_scriptPubKey p
                    \<and> requiredMasternodePayment env b phase \<le> nValue out))"
    by (simp add: phase_body_quorum payee_paid_iff)
next
  assume q: "\<exists>p \<in> set (vecPayments b). masternodeLevel p = phase
          \<and> MNPAYMENTS_SIGNATURES_REQUIRED \<le> nVotes p"
  from GetPayee_quorum [OF q] obtain p where p: "p \<in> set (vecPayments b)"
      "masternodeLevel p = phase" "MNPAYMENTS_SIGNATURES_REQUIRED \<le> nVotes p"
      "GetPayee b phase = Some (payee_scriptPubKey p)"
    by blast
  note eq = phase_body_quorum [OF q, of env txNew]
  have suff: "payee_paid (vout txNew) (payee_scriptPubKey p) (requiredMasternodePayment env b phase)
        \<longrightarrow> phase_body env b txNew True phase"
    unfolding eq using p(1-3) by blast
  have only: "(\<forall>q \<in> set (vecPayments b). masternodeLevel q = phase
                      \<and> MNPAYMENTS_SIGNATURES_REQUIRED \<le> nVotes q
                      \<longrightarrow> payee_scriptPubKey q = payee_scriptPubKey p)
        \<longrightarrow> (phase_body env b txNew True phase \<longleftrightarrow>
              payee_paid (vout txNew) (payee_scriptPubKey p) (requiredMasternodePayment env b phase))"
  proof
    assume same: "\<forall>q \<in> set (vecPayments b). masternodeLevel q = phase
                      \<and> MNPAYMENTS_SIGNATURES_REQUIRED \<le> nVotes q
                      \<longrightarrow> payee_scriptPubKey q = payee_scriptPubKey p"
    show "phase_body env b txNew True phase \<longleftrightarrow>
              payee_paid (vout txNew) (payee_scriptPubKey p) (requiredMasternodePayment env b phase)"
    proof
      assume "phase_body env b txNew True phase"
      then obtain q where "q \<in> set (vecPayments b)" "masternodeLevel q = phase"
          "MNPAYMENTS_SIGNATURES_REQUIRED \<le> nVotes q"
          "payee_paid (vout txNew) (payee_scriptPubKey q) (requiredMasternodePayment env b phase)"
        unfolding eq by blast
      with same show "payee_paid (vout txNew) (payee_scriptPubKey p)
          (requiredMasternodePayment env b phase)"
        by metis
    next
      assume "payee_paid (vout txNew) (payee_scriptPubKey p)
          (requiredMasternodePayment env b phase)"
      with suff show "phase_body env b txNew True phase"
        by simp
    qed
  qed
  from p(4) suff only
  show "\<exists>leader. GetPayee b phase = Some leader
              \<and> (payee_paid (vout txNew) leader (requiredMasternodePayment env b phase)
                    \<longrightarrow> phase_body env b txNew True phase)
              \<and> ((\<forall>q \<in> set (vecPayments b). masternodeLevel q = phase
                      \<and> MNPAYMENTS_SIGNATURES_REQUIRED \<le> nVotes q
                      \<longrightarrow> payee_scriptPubKey q = leader)
                    \<longrightarrow> (phase_body env b txNew True phase \<longleftrightarrow>
                          payee_paid (vout txNew) leader
                            (requiredMasternodePayment env b phase)))"
    by (intro exI [of _ "payee_scriptPubKey p"] conjI)
qed

lemma sample_phase_count:
  "getMasternodePhaseCount sample_env h = 1"
  by (simp add: sample_env_def)

lemma sample_required:
  "requiredMasternodePayment sample_env b phase = 50"
  by (simp add: requiredMasternodePayment_def sample_env_def)

theorem validate_payment_quorum_witness:
  "(\<exists>p \<in> set (vecPayments tally_quorum). masternodeLevel p = 1
       \<and> MNPAYMENTS_SIGNATURES_REQUIRED \<le> nVotes p)
   \<and> BlockPayees_IsTransactionValid sample_env tally_quorum (tx_paying script_P 50)
   \<and> \<not> BlockPayees_IsTransactionValid sample_env tally_quorum (tx_paying script_P 40)
   \<and> GetPayee tally_quorum 1 = Some script_P"
proof -
  have q: "\<exists>p \<in> set (vecPayments tally_quorum). masternodeLevel p = 1
       \<and> MNPAYMENTS_SIGNATURES_REQUIRED \<le> nVotes p"
    by (simp add: tally_quorum_def MNPAYMENTS_SIGNATURES_REQUIRED_def)
  note t50 = validate_payment_quorum [of sample_env tally_quorum "tx_paying script_P 50" 1]
  note t40 = validate_payment_quorum [of sample_env tally_quorum "tx_paying script_P 40" 1]
  have "phase_body sample_env tally_quorum (tx_paying script_P 50) True 1"
    unfolding t50 [THEN conjunct2, THEN mp, OF q, THEN conjunct1]
    by (simp add: sample_required tally_quorum_def tx_paying_def
        MNPAYMENTS_SIGNATURES_REQUIRED_def)
  then have v50: "BlockPayees_IsTransactionValid sample_env tally_quorum (tx_paying script_P 50)"
    unfolding t50 [THEN conjunct1] by (simp add: sample_phase_count)
  have "\<not> phase_body sample_env tally_quorum (tx_paying script_P 40) True 1"
    unfolding t40 [THEN conjunct2, THEN mp, OF q, THEN conjunct1]
    by (simp add: sample_required tally_quorum_def tx_paying_def
        MNPAYMENTS_SIGNATURES_REQUIRED_def)
  then have v40: "\<not> BlockPayees_IsTransactionValid sample_env tally_quorum (tx_paying script_P 40)"
    unfolding t40 [THEN conjunct1] by (simp add: sample_phase_count)
  have "GetPayee tally_quorum 1 = Some script_P"
    by (simp add: GetPayee_def tally_quorum_def)
  with q v50 v40 show ?thesis
    by (intro conjI)
qed

text \<open>
  C1 as stated fails: with two payees of level 1 at eight and six votes, a transaction that
  pays only the second one is valid, although the leading payee receives nothing.
\<close>

theorem validate_payment_leading_counterexample:
  "BlockPayees_IsTransactionValid sample_env tally_two_quorums (tx_paying script_Q 50)
   \<and> GetPayee tally_two_quorums 1 = Some script_P
   \<and> \<not> payee_paid (vout (tx_paying script_Q 50)) script_P
         (requiredMasternodePayment sample_env tally_two_quorums 1)"
  by (simp add: BlockPayees_IsTransactionValid_def phase_body_def sample_required
      sample_phase_count tally_two_quorums_def tx_paying_def script_P_def script_Q_def
      GetPayee_def MNPAYMENTS_SIGNATURES_REQUIRED_def)

text \<open>
  C6: a level none of whose payees has reached six votes is skipped by the validation loop,
  whatever the transaction pays; a tally without any quorum accepts every transaction.
\<close>

theorem no_quorum_unconstrained:
  "((\<forall>p \<in> set (vecPayments b). masternodeLevel p = phase
        \<longrightarrow> nVotes p < MNPAYMENTS_SIGNATURES_REQUIRED)
      \<longrightarrow> phase_body env b txNew correct phase = correct)
   \<and> ((\<forall>phase \<in> {1 .. getMasternodePhaseCount env (payees_nBlockHeight b)}.
         \<forall>p \<in> set (vecPayments b). masternodeLevel p = phase
           \<longrightarrow> nVotes p < MNPAYMENTS_SIGNATURES_REQUIRED)
      \<longrightarrow> BlockPayees_IsTransactionValid env b txNew)"
  by (simp add: phase_body_no_quorum BlockPayees_IsTransactionValid_iff)

theorem no_quorum_unconstrained_witness:
  "list_all (\<lambda>p. nVotes p < MNPAYMENTS_SIGNATURES_REQUIRED) (vecPayments tally_thin)
   \<and> phase_body sample_env tally_thin (tx_paying script_Q 0) False 1 = False
   \<and> BlockPayees_IsTransactionValid sample_env tally_thin (tx_paying script_Q 0)
   \<and> BlockPayees_IsTransactionValid sample_env tally_thin \<lparr>vout = []\<rparr>"
  using no_quorum_unconstrained [of tally_thin 1 sample_env "tx_paying script_Q 0" False]
    no_quorum_unconstrained [of tally_thin 1 sample_env "\<lparr>vout = []\<rparr>" False]
  by (simp add: tally_thin_def MNPAYMENTS_SIGNATURES_REQUIRED_def sample_phase_count)

text \<open>
  C7: when the ledger holds no tally for the height, every transaction is valid there.
\<close>

theorem no_tally_valid:
  "mapMasternodeBlocks s h = None \<Longrightarrow> IsTransactionValid env s txNew h"
  by (simp add: IsTransactionValid_def)

theorem no_tally_valid_witness:
  "mapMasternodeBlocks empty_ledger 995 = None
   \<and> IsTransactionValid sample_env empty_ledger (tx_paying script_Q 0) 995"
proof -
  have none: "mapMasternodeBlocks empty_ledger 995 = None"
    by (simp add: empty_ledger_def)
  from none no_tally_valid [OF none] show ?thesis
    by (intro conjI)
qed

subsection \<open>The height window of vote admission\<close>

lemma sample_window:
  "Tip sample_env = Some 1000"
  "CountEnabledOnLevel sample_env level = 8"
  "IsBlockchainSynced sample_env" "\<not> fLiteMode sample_env"
  "\<not> peer_nVersion sample_env < ActiveProtocol sample_env"
  by (simp_all add: sample_env_def)

lemma sample_phases:
  "GetPhase sample_env w = 1" "GetPayeePhase sample_env w = 1"
  by (simp_all add: GetPhase_def GetPayeePhase_def sample_env_def sample_mn_def)

lemma sample_checks:
  "IsValid sample_env w" "SignatureValid sample_env w"
  "GetBlockHash sample_env h = Some 1"
  by (simp_all add: IsValid_def SignatureValid_def sample_env_def sample_mn_def
      MNPAYMENTS_SIGNATURES_TOTAL_def)

lemma CanVote_fresh:
  "mapMasternodesLastVote s (CanVote_key env w) \<noteq> Some (nBlockHeight w) \<Longrightarrow>
     CanVote env s w =
       (True, s\<lparr>mapMasternodesLastVote :=
                  (mapMasternodesLastVote s)(CanVote_key env w \<mapsto> nBlockHeight w)\<rparr>)"
  by (simp add: CanVote_def Let_def split: option.splits)

lemma CanVote_votes:
  "mapMasternodePayeeVotes (snd (CanVote env s w)) = mapMasternodePayeeVotes s"
  "mapMasternodeBlocks (snd (CanVote env s w)) = mapMasternodeBlocks s"
  by (simp_all add: CanVote_def Let_def split: option.splits)

lemma AddWinningMasternode_fresh:
  "GetBlockHash env (nBlockHeight w - 100) \<noteq> None \<Longrightarrow>
   map_of (mapMasternodePayeeVotes s) (GetHash env w) = None \<Longrightarrow>
   fst (AddWinningMasternode env s w)"
  by (auto simp: AddWinningMasternode_def Let_def split: option.splits)

text \<open>
  C4: for a vote that reaches the window check (node synced, peer current, both levels
  resolved, a tip, hash not yet known), with \<open>c\<close> the enabled count on the payee's level: at
  height \<open>tip - floor (1.25 c) - 1\<close> and at any height above \<open>tip + 20\<close> the vote leaves by the
  out-of-window return and the ledger is unchanged; at height \<open>tip - floor (1.25 c)\<close> a vote
  that passes the remaining checks is accepted.
\<close>

theorem vote_window_boundary:
  assumes "IsBlockchainSynced env" and "\<not> fLiteMode env"
    and "\<not> peer_nVersion env < ActiveProtocol env"
    and "GetPhase env w \<noteq> 0" and "GetPayeePhase env w \<noteq> 0"
    and "Tip env = Some tip"
    and "map_of (mapMasternodePayeeVotes s) (GetHash env w) = None"
  shows "(nBlockHeight w = tip - \<lfloor>1.25 * real (CountEnabledOnLevel env (GetPayeePhase env w))\<rfloor> - 1
            \<longrightarrow> ProcessMessage_mnw env s w = (OutOfWindow, s))
       \<and> (nBlockHeight w > tip + 20 \<longrightarrow> ProcessMessage_mnw env s w = (OutOfWindow, s))
       \<and> (nBlockHeight w = tip - \<lfloor>1.25 * real (CountEnabledOnLevel env (GetPayeePhase env w))\<rfloor>
            \<and> IsValid env w
            \<and> mapMasternodesLastVote s (CanVote_key env w) \<noteq> Some (nBlockHeight w)
            \<and> SignatureValid env w
            \<and> GetBlockHash env (nBlockHeight w - 100) \<noteq> None
            \<longrightarrow> fst (ProcessMessage_mnw env s w) = Accepted)"
proof (intro conjI impI)
  let ?c = "times_1_25 (CountEnabledOnLevel env (GetPayeePhase env w))"
  have c0: "0 \<le> ?c"
    by (simp add: times_1_25_def)
  {
    assume "nBlockHeight w = tip - \<lfloor>1.25 * real (CountEnabledOnLevel env (GetPayeePhase env w))\<rfloor> - 1"
    then have "nBlockHeight w < tip - ?c"
      by (simp add: times_1_25_floor)
    with assms show "ProcessMessage_mnw env s w = (OutOfWindow, s)"
      by (simp add: ProcessMessage_mnw_def Let_def)
  }
  {
    assume "nBlockHeight w > tip + 20"
    with assms show "ProcessMessage_mnw env s w = (OutOfWindow, s)"
      by (simp add: ProcessMessage_mnw_def Let_def)
  }
  {
    assume a: "nBlockHeight w = tip - \<lfloor>1.25 * real (CountEnabledOnLevel env (GetPayeePhase env w))\<rfloor>
            \<and> IsValid env w
            \<and> mapMasternodesLastVote s (CanVote_key env w) \<noteq> Some (nBlockHeight w)
            \<and> SignatureValid env w
            \<and> GetBlockHash env (nBlockHeight w - 100) \<noteq> None"
    then have hf: "nBlockHeight w
          = tip - \<lfloor>1.25 * real (CountEnabledOnLevel env (GetPayeePhase env w))\<rfloor>"
      and valid: "IsValid env w"
      and unvoted: "mapMasternodesLastVote s (CanVote_key env w) \<noteq> Some (nBlockHeight w)"
      and signed: "SignatureValid env w"
      and known: "GetBlockHash env (nBlockHeight w - 100) \<noteq> None"
      by blast+
    from hf have h: "nBlockHeight w = tip - ?c"
      by (simp only: times_1_25_floor)
    from h c0 have inside: "\<not> (nBlockHeight w < tip - ?c \<or> nBlockHeight w > tip + 20)"
      by simp
    let ?s' = "s\<lparr>mapMasternodesLastVote :=
                  (mapMasternodesLastVote s)(CanVote_key env w \<mapsto> nBlockHeight w)\<rparr>"
    from unvoted have cv: "CanVote env s w = (True, ?s')"
      by (rule CanVote_fresh)
    have "fst (AddWinningMasternode env ?s' w)"
      using known assms(7) by (intro AddWinningMasternode_fresh) simp_all
    then obtain s'' where add: "AddWinningMasternode env ?s' w = (True, s'')"
      by (cases "AddWinningMasternode env ?s' w") simp
    from assms valid signed inside cv add show "fst (ProcessMessage_mnw env s w) = Accepted"
      by (simp add: ProcessMessage_mnw_def Let_def)
  }
qed

theorem vote_window_boundary_witness:
  "ProcessMessage_mnw sample_env empty_ledger (vote_at 7 989 9) = (OutOfWindow, empty_ledger)
   \<and> ProcessMessage_mnw sample_env empty_ledger (vote_at 7 1021 9) = (OutOfWindow, empty_ledger)
   \<and> fst (ProcessMessage_mnw sample_env empty_ledger (vote_at 7 990 9)) = Accepted"
proof -
  have floor: "times_1_25 (CountEnabledOnLevel sample_env level) = 10" for level
    by (simp add: times_1_25_def sample_window)
  have fresh: "map_of (mapMasternodePayeeVotes empty_ledger) k = None" for k
    by (simp add: empty_ledger_def)
  have unvoted: "mapMasternodesLastVote empty_ledger k \<noteq> Some h" for k h
    by (simp add: empty_ledger_def)
  have pre: "GetPhase sample_env w \<noteq> 0" "GetPayeePhase sample_env w \<noteq> 0" for w
    by (simp_all add: sample_phases)
  note t = vote_window_boundary [OF sample_window(3-5) pre sample_window(1) fresh,
      unfolded times_1_25_floor [symmetric] floor]
  have h: "nBlockHeight (vote_at 7 989 9) = 989" "nBlockHeight (vote_at 7 1021 9) = 1021"
    "nBlockHeight (vote_at 7 990 9) = 990"
    by (simp_all add: vote_at_def)
  from t [of "vote_at 7 989 9"] have low: "ProcessMessage_mnw sample_env empty_ledger (vote_at 7 989 9) = (OutOfWindow, empty_ledger)"
    by (simp add: h)
  from t [of "vote_at 7 1021 9"] have high: "ProcessMessage_mnw sample_env empty_ledger (vote_at 7 1021 9) = (OutOfWindow, empty_ledger)"
    by (simp add: h)
  from t [of "vote_at 7 990 9"] have edge: "fst (ProcessMessage_mnw sample_env empty_ledger (vote_at 7 990 9)) = Accepted"
    by (simp add: h sample_checks unvoted)
  from low high edge show ?thesis
    by (intro conjI)
qed

subsection \<open>Retention\<close>

lemma int32_id:
  "fits_int32 x \<Longrightarrow> int32 x = x"
  by (simp add: fits_int32_def int32_def)

lemma CleanPaymentList_loop_votes:
  "fst (CleanPaymentList_loop nHeight nLimit votes blocks) =
     filter (\<lambda>(k, w). \<not> nLimit < int32 (nHeight - nBlockHeight w)) votes"
  by (induction votes arbitrary: blocks) (auto simp: case_prod_unfold)

lemma CleanPaymentList_loop_blocks:
  "snd (CleanPaymentList_loop nHeight nLimit votes blocks) h =
     (if list_ex (\<lambda>(k, w). nBlockHeight w = h \<and> nLimit < int32 (nHeight - h)) votes
      then None else blocks h)"
  by (induction votes arbitrary: blocks) (auto simp: case_prod_unfold)

lemma CleanPaymentList_tip:
  assumes "Tip env = Some tip"
  shows "CleanPaymentList env s =
     s\<lparr>mapMasternodePayeeVotes :=
          fst (CleanPaymentList_loop tip (max (times_1_25 (mnodeman_size env)) 1000)
                 (mapMasternodePayeeVotes s) (mapMasternodeBlocks s)),
        mapMasternodeBlocks :=
          snd (CleanPaymentList_loop tip (max (times_1_25 (mnodeman_size env)) 1000)
                 (mapMasternodePayeeVotes s) (mapMasternodeBlocks s))\<rparr>"
  using assms by (simp add: CleanPaymentList_def Let_def case_prod_unfold)

lemma CleanPaymentList_votes:
  assumes "Tip env = Some tip"
  shows "mapMasternodePayeeVotes (CleanPaymentList env s) =
     filter (\<lambda>(k, w). \<not> max (times_1_25 (mnodeman_size env)) 1000 < int32 (tip - nBlockHeight w))
       (mapMasternodePayeeVotes s)"
  by (simp add: CleanPaymentList_tip [OF assms] CleanPaymentList_loop_votes)

lemma CleanPaymentList_votes_fits:
  assumes "Tip env = Some tip"
    and "\<forall>(k, w) \<in> set (mapMasternodePayeeVotes s). fits_int32 (tip - nBlockHeight w)"
  shows "mapMasternodePayeeVotes (CleanPaymentList env s) =
     filter (\<lambda>(k, w). \<not> nBlockHeight w < tip - max (times_1_25 (mnodeman_size env)) 1000)
       (mapMasternodePayeeVotes s)"
  unfolding CleanPaymentList_votes [OF assms(1)]
  using assms(2) by (intro filter_cong) (auto simp: int32_id)

lemma CleanPaymentList_blocks_fits:
  assumes "Tip env = Some tip"
    and "\<forall>(k, w) \<in> set (mapMasternodePayeeVotes s). fits_int32 (tip - nBlockHeight w)"
  shows "mapMasternodeBlocks (CleanPaymentList env s) h =
     (if list_ex (\<lambda>(k, w). nBlockHeight w = h
            \<and> h < tip - max (times_1_25 (mnodeman_size env)) 1000)
           (mapMasternodePayeeVotes s)
      then None else mapMasternodeBlocks s h)"
proof -
  let ?lim = "max (times_1_25 (mnodeman_size env)) 1000"
  have "list_ex (\<lambda>(k, w). nBlockHeight w = h \<and> ?lim < int32 (tip - h)) (mapMasternodePayeeVotes s)
      = list_ex (\<lambda>(k, w). nBlockHeight w = h \<and> h < tip - ?lim) (mapMasternodePayeeVotes s)"
    unfolding list_ex_iff using assms(2) by (force simp: int32_id)
  then show ?thesis
    by (simp add: CleanPaymentList_tip [OF assms(1)] CleanPaymentList_loop_blocks)
qed

lemma sample_hash_vote:
  "GetHash sample_env (vote_at voter h payeeRef) = payeeRef * 65536 + word_of_int h"
  by (simp add: GetHash_def sample_env_def sample_hash_def vote_at_def)

lemma sample_add:
  "map_of (mapMasternodePayeeVotes s) (GetHash sample_env w) = None \<Longrightarrow>
   mapMasternodePayeeVotes (snd (AddWinningMasternode sample_env s w)) =
     map_store (GetHash sample_env w) w (mapMasternodePayeeVotes s)"
  by (simp add: AddWinningMasternode_def sample_checks Let_def)

lemma ledger_of_snoc:
  "ledger_of (ws @ [w]) = snd (AddWinningMasternode sample_env (ledger_of ws) w)"
  by (simp add: ledger_of_def)

lemma ledger_of_Nil:
  "ledger_of [] = empty_ledger"
  by (simp add: ledger_of_def)

lemma ledger_one:
  "mapMasternodePayeeVotes (ledger_of [vote_at 7 h 9]) = [(589824 + word_of_int h, vote_at 7 h 9)]"
  using ledger_of_snoc [of "[]" "vote_at 7 h 9"]
  by (simp add: ledger_of_Nil sample_add empty_ledger_def sample_hash_vote)

lemma ledger_three:
  "mapMasternodePayeeVotes (ledger_of [vote_at 7 999 9, vote_at 7 1000 9, vote_at 7 1875 9]) =
     [(590823, vote_at 7 999 9), (590824, vote_at 7 1000 9), (591699, vote_at 7 1875 9)]"
proof -
  have one: "mapMasternodePayeeVotes (ledger_of [vote_at 7 999 9]) = [(590823, vote_at 7 999 9)]"
    by (simp add: ledger_one)
  have two: "mapMasternodePayeeVotes (ledger_of [vote_at 7 999 9, vote_at 7 1000 9])
      = [(590823, vote_at 7 999 9), (590824, vote_at 7 1000 9)]"
    using ledger_of_snoc [of "[vote_at 7 999 9]" "vote_at 7 1000 9"]
    by (simp add: sample_add one sample_hash_vote)
  show ?thesis
    using ledger_of_snoc [of "[vote_at 7 999 9, vote_at 7 1000 9]" "vote_at 7 1875 9"]
    by (simp add: sample_add two sample_hash_vote)
qed

text \<open>
  C3 (amended): with a tip, \<open>CleanPaymentList\<close> removes exactly the votes for which the
  32-bit difference \<open>tip - height\<close> exceeds \<open>retention = max (floor (1.25 * roster size)) 1000\<close>,
  keeps the others in their order and unchanged, and leaves the last-vote record alone.
  When no stored height makes \<open>tip - height\<close> leave the 32-bit range, these are exactly the
  votes older than \<open>tip - retention\<close>, and the tallies erased are those of the heights of the
  removed votes. At tip 2000 with a roster of 100 the retention is 1000: on such a ledger
  the votes below height 1000 go, those at 1000 and above stay.
\<close>

theorem cleanup_retention:
  assumes "Tip env = Some tip"
  shows "mapMasternodePayeeVotes (CleanPaymentList env s) =
           filter (\<lambda>(k, w). \<not> max \<lfloor>1.25 * real (mnodeman_size env)\<rfloor> 1000
                               < int32 (tip - nBlockHeight w))
             (mapMasternodePayeeVotes s)
       \<and> ((\<forall>(k, w) \<in> set (mapMasternodePayeeVotes s). fits_int32 (tip - nBlockHeight w)) \<longrightarrow>
            mapMasternodePayeeVotes (CleanPaymentList env s) =
              filter (\<lambda>(k, w). \<not> nBlockHeight w
                                  < tip - max \<lfloor>1.25 * real (mnodeman_size env)\<rfloor> 1000)
                (mapMasternodePayeeVotes s)
            \<and> mapMasternodeBlocks (CleanPaymentList env s) h =
                (if list_ex (\<lambda>(k, w). nBlockHeight w = h
                       \<and> h < tip - max \<lfloor>1.25 * real (mnodeman_size env)\<rfloor> 1000)
                      (mapMasternodePayeeVotes s)
                 then None else mapMasternodeBlocks s h))
       \<and> mapMasternodesLastVote (CleanPaymentList env s) = mapMasternodesLastVote s
       \<and> (mnodeman_size env = 100 \<and> tip = 2000
            \<and> (\<forall>(k, w) \<in> set (mapMasternodePayeeVotes s). fits_int32 (tip - nBlockHeight w)) \<longrightarrow>
            mapMasternodePayeeVotes (CleanPaymentList env s) =
              filter (\<lambda>(k, w). 1000 \<le> nBlockHeight w) (mapMasternodePayeeVotes s))"
proof -
  let ?lim = "max (times_1_25 (mnodeman_size env)) 1000"
  let ?fits = "\<forall>(k, w) \<in> set (mapMasternodePayeeVotes s). fits_int32 (tip - nBlockHeight w)"
  note exact = CleanPaymentList_votes [OF assms, of s]
  have plain: "?fits \<longrightarrow>
      mapMasternodePayeeVotes (CleanPaymentList env s) =
        filter (\<lambda>(k, w). \<not> nBlockHeight w < tip - ?lim) (mapMasternodePayeeVotes s)
      \<and> mapMasternodeBlocks (CleanPaymentList env s) h =
          (if list_ex (\<lambda>(k, w). nBlockHeight w = h \<and> h < tip - ?lim) (mapMasternodePayeeVotes s)
           then None else mapMasternodeBlocks s h)"
    using CleanPaymentList_votes_fits [OF assms, of s] CleanPaymentList_blocks_fits [OF assms, of s h]
    by blast
  have guard: "mapMasternodesLastVote (CleanPaymentList env s) = mapMasternodesLastVote s"
    by (simp add: CleanPaymentList_tip [OF assms])
  have scenario: "mnodeman_size env = 100 \<and> tip = 2000 \<and> ?fits \<longrightarrow>
      mapMasternodePayeeVotes (CleanPaymentList env s) =
        filter (\<lambda>(k, w). 1000 \<le> nBlockHeight w) (mapMasternodePayeeVotes s)"
  proof
    assume a: "mnodeman_size env = 100 \<and> tip = 2000 \<and> ?fits"
    then have "tip - ?lim = 1000"
      by (simp add: times_1_25_def)
    moreover from a have ?fits
      by blast
    ultimately show "mapMasternodePayeeVotes (CleanPaymentList env s) =
        filter (\<lambda>(k, w). 1000 \<le> nBlockHeight w) (mapMasternodePayeeVotes s)"
      using CleanPaymentList_votes_fits [OF assms, of s] by (simp add: not_less)
  qed
  from exact plain guard scenario show ?thesis
    unfolding times_1_25_floor [symmetric] by (intro conjI)
qed

theorem cleanup_retention_witness:
  "list_all (\<lambda>(k, w). fits_int32 (2000 - nBlockHeight w))
     (mapMasternodePayeeVotes (ledger_of [vote_at 7 999 9, vote_at 7 1000 9, vote_at 7 1875 9]))
   \<and> map (\<lambda>(k, w). nBlockHeight w)
       (mapMasternodePayeeVotes
          (CleanPaymentList (sample_env\<lparr>Tip := Some 2000\<rparr>)
             (ledger_of [vote_at 7 999 9, vote_at 7 1000 9, vote_at 7 1875 9])))
     = [1000, 1875]"
proof -
  let ?s = "ledger_of [vote_at 7 999 9, vote_at 7 1000 9, vote_at 7 1875 9]"
  have tip: "Tip (sample_env\<lparr>Tip := Some 2000\<rparr>) = Some 2000"
    by simp
  have size: "mnodeman_size (sample_env\<lparr>Tip := Some 2000\<rparr>) = 100"
    by (simp add: sample_env_def)
  have fits: "list_all (\<lambda>(k, w). fits_int32 (2000 - nBlockHeight w)) (mapMasternodePayeeVotes ?s)"
    unfolding ledger_three by (simp add: vote_at_def fits_int32_def)
  then have ball: "\<forall>(k, w) \<in> set (mapMasternodePayeeVotes ?s). fits_int32 (2000 - nBlockHeight w)"
    by (simp add: list_all_iff)
  from cleanup_retention [OF tip, of ?s, THEN conjunct2, THEN conjunct2, THEN conjunct2] size ball
  have "mapMasternodePayeeVotes (CleanPaymentList (sample_env\<lparr>Tip := Some 2000\<rparr>) ?s)
      = filter (\<lambda>(k, w). 1000 \<le> nBlockHeight w) (mapMasternodePayeeVotes ?s)"
    by blast
  then have "map (\<lambda>(k, w). nBlockHeight w)
       (mapMasternodePayeeVotes (CleanPaymentList (sample_env\<lparr>Tip := Some 2000\<rparr>) ?s))
     = [1000, 1875]"
    unfolding ledger_three by (simp add: vote_at_def)
  with fits show ?thesis
    by (intro conjI)
qed

text \<open>
  C3 as stated fails on its example: at tip 2000 with a roster of 100 a vote at height 1875
  is still in the ledger after the cleanup, with its tally.
\<close>

theorem cleanup_scenario_counterexample:
  "mnodeman_size (sample_env\<lparr>Tip := Some 2000\<rparr>) = 100
   \<and> mapMasternodePayeeVotes
        (CleanPaymentList (sample_env\<lparr>Tip := Some 2000\<rparr>) (ledger_of [vote_at 7 1875 9]))
      = [(591699, vote_at 7 1875 9)]
   \<and> mapMasternodePayeeVotes (ledger_of [vote_at 7 1875 9]) = [(591699, vote_at 7 1875 9)]"
proof -
  have tip: "Tip (sample_env\<lparr>Tip := Some 2000\<rparr>) = Some 2000"
    by simp
  have size: "mnodeman_size (sample_env\<lparr>Tip := Some 2000\<rparr>) = 100"
    by (simp add: sample_env_def)
  have before: "mapMasternodePayeeVotes (ledger_of [vote_at 7 1875 9]) = [(591699, vote_at 7 1875 9)]"
    by (simp add: ledger_one)
  have "mapMasternodePayeeVotes
        (CleanPaymentList (sample_env\<lparr>Tip := Some 2000\<rparr>) (ledger_of [vote_at 7 1875 9]))
      = [(591699, vote_at 7 1875 9)]"
    unfolding CleanPaymentList_votes [OF tip] size before
    by (simp add: times_1_25_def vote_at_def int32_def)
  with size before show ?thesis
    by (intro conjI)
qed

subsection \<open>Sync answers and the reset of the ledger\<close>

lemma Sync_loop_filter:
  "Sync_loop env nHeight nCountNeeded votes sent nInvCount =
     (sent @ map (\<lambda>(k, w). Inv (GetHash env w))
               (filter (\<lambda>(k, w). int32 (nHeight - nCountNeeded) \<le> nBlockHeight w
                                 \<and> nBlockHeight w \<le> nHeight + 20) votes),
      nInvCount + int (length
               (filter (\<lambda>(k, w). int32 (nHeight - nCountNeeded) \<le> nBlockHeight w
                                 \<and> nBlockHeight w \<le> nHeight + 20) votes)))"
  by (induction votes arbitrary: sent nInvCount) (auto simp: case_prod_unfold)

lemma Sync_tip:
  assumes "Tip env = Some tip"
  shows "Sync env s c =
     map (\<lambda>(k, w). Inv (GetHash env w))
       (filter (\<lambda>(k, w). int32 (tip - min c (times_1_25 (CountEnabled env))) \<le> nBlockHeight w
                         \<and> nBlockHeight w \<le> tip + 20)
          (mapMasternodePayeeVotes s))
     @ [SyncStatusCount (int (length
       (filter (\<lambda>(k, w). int32 (tip - min c (times_1_25 (CountEnabled env))) \<le> nBlockHeight w
                         \<and> nBlockHeight w \<le> tip + 20)
          (mapMasternodePayeeVotes s))))]"
proof -
  have "(if c > times_1_25 (CountEnabled env) then times_1_25 (CountEnabled env) else c)
      = min c (times_1_25 (CountEnabled env))"
    by (simp add: min_def)
  with assms show ?thesis
    by (simp add: Sync_def Let_def Sync_loop_filter)
qed

text \<open>
  C9 (amended): when the tip can be read, the answer to a request for \<open>c\<close> entries is one
  inventory item for each ledger vote whose height lies between the 32-bit difference
  \<open>tip - min c (floor (1.25 * enabled))\<close> and \<open>tip + 20\<close>, in the order of the vote index,
  followed by a single status message carrying their number. When that difference stays in
  the 32-bit range, as it does for every count that is not negative, the window is
  \<open>[tip - min c (floor (1.25 * enabled)), tip + 20]\<close>. When the tip cannot be read, nothing
  is sent.
\<close>

theorem sync_window:
  "(Tip env = None \<longrightarrow> Sync env s c = [])
   \<and> (Tip env = Some tip \<longrightarrow>
        Sync env s c =
          map (\<lambda>(k, w). Inv (GetHash env w))
            (filter (\<lambda>(k, w). int32 (tip - min c \<lfloor>1.25 * real (CountEnabled env)\<rfloor>)
                                \<le> nBlockHeight w
                              \<and> nBlockHeight w \<le> tip + 20)
               (mapMasternodePayeeVotes s))
          @ [SyncStatusCount (int (length
            (filter (\<lambda>(k, w). int32 (tip - min c \<lfloor>1.25 * real (CountEnabled env)\<rfloor>)
                                \<le> nBlockHeight w
                              \<and> nBlockHeight w \<le> tip + 20)
               (mapMasternodePayeeVotes s))))])
   \<and> (Tip env = Some tip \<and> fits_int32 (tip - min c \<lfloor>1.25 * real (CountEnabled env)\<rfloor>) \<longrightarrow>
        Sync env s c =
          map (\<lambda>(k, w). Inv (GetHash env w))
            (filter (\<lambda>(k, w). tip - min c \<lfloor>1.25 * real (CountEnabled env)\<rfloor> \<le> nBlockHeight w
                              \<and> nBlockHeight w \<le> tip + 20)
               (mapMasternodePayeeVotes s))
          @ [SyncStatusCount (int (length
            (filter (\<lambda>(k, w). tip - min c \<lfloor>1.25 * real (CountEnabled env)\<rfloor> \<le> nBlockHeight w
                              \<and> nBlockHeight w \<le> tip + 20)
               (mapMasternodePayeeVotes s))))])
   \<and> (0 \<le> c \<and> fits_int32 tip \<and> fits_int32 (tip - \<lfloor>1.25 * real (CountEnabled env)\<rfloor>)
        \<longrightarrow> fits_int32 (tip - min c \<lfloor>1.25 * real (CountEnabled env)\<rfloor>))"
proof -
  have quiet: "Tip env = None \<longrightarrow> Sync env s c = []"
    by (simp add: Sync_def)
  have range: "0 \<le> c \<and> fits_int32 tip \<and> fits_int32 (tip - times_1_25 (CountEnabled env))
        \<longrightarrow> fits_int32 (tip - min c (times_1_25 (CountEnabled env)))"
    by (auto simp: fits_int32_def min_def)
  show ?thesis
    unfolding times_1_25_floor [symmetric]
    using quiet range by (simp add: Sync_tip int32_id)
qed

theorem sync_window_witness:
  "Sync (sample_env\<lparr>Tip := None\<rparr>) (ledger_of [vote_at 7 999 9, vote_at 7 1000 9, vote_at 7 1875 9]) 5
     = []
   \<and> fits_int32 (1000 - min 5 (times_1_25 (CountEnabled sample_env)))
   \<and> Sync sample_env (ledger_of [vote_at 7 999 9, vote_at 7 1000 9, vote_at 7 1875 9]) 5
     = [Inv 590823, Inv 590824, SyncStatusCount 2]
   \<and> Sync sample_env (ledger_of [vote_at 7 999 9, vote_at 7 1000 9, vote_at 7 1875 9]) 1
     = [Inv 590823, Inv 590824, SyncStatusCount 2]
   \<and> Sync sample_env (ledger_of [vote_at 7 999 9, vote_at 7 1000 9, vote_at 7 1875 9]) 0
     = [Inv 590824, SyncStatusCount 1]
   \<and> Sync sample_env (ledger_of [vote_at 7 999 9, vote_at 7 1000 9, vote_at 7 1875 9])
        (- 2147483648)
     = [Inv 590823, Inv 590824, SyncStatusCount 2]"
proof -
  let ?s = "ledger_of [vote_at 7 999 9, vote_at 7 1000 9, vote_at 7 1875 9]"
  have none: "Tip (sample_env\<lparr>Tip := None\<rparr>) = None"
    by simp
  from sync_window [of "sample_env\<lparr>Tip := None\<rparr>" ?s 5] none
  have quiet: "Sync (sample_env\<lparr>Tip := None\<rparr>) ?s 5 = []"
    by blast
  have count: "times_1_25 (CountEnabled sample_env) = 10"
    by (simp add: times_1_25_def sample_env_def)
  have fits: "fits_int32 (1000 - min c 10)" if "0 \<le> c" for c :: int
    using that by (simp add: fits_int32_def min_def)
  have hashes: "GetHash sample_env (vote_at 7 999 9) = 590823"
    "GetHash sample_env (vote_at 7 1000 9) = 590824"
    by (simp_all add: sample_hash_vote)
  have heights: "nBlockHeight (vote_at v h p) = h" for v h p
    by (simp add: vote_at_def)
  note window = sync_window [of sample_env ?s _ 1000, THEN conjunct2, THEN conjunct2,
      THEN conjunct1, unfolded times_1_25_floor [symmetric] count ledger_three, THEN mp,
      OF conjI, OF sample_window(1) fits]
  have five: "Sync sample_env ?s 5 = [Inv 590823, Inv 590824, SyncStatusCount 2]"
    using window [of 5] by (simp add: heights hashes)
  have one: "Sync sample_env ?s 1 = [Inv 590823, Inv 590824, SyncStatusCount 2]"
    using window [of 1] by (simp add: heights hashes)
  have zero: "Sync sample_env ?s 0 = [Inv 590824, SyncStatusCount 1]"
    using window [of 0] by (simp add: heights hashes)
  have wrapped: "Sync sample_env ?s (- 2147483648) = [Inv 590823, Inv 590824, SyncStatusCount 2]"
    using sync_window [of sample_env ?s "- 2147483648" 1000, THEN conjunct2, THEN conjunct1,
      unfolded times_1_25_floor [symmetric] count ledger_three, THEN mp, OF sample_window(1)]
    by (simp add: heights hashes int32_def)
  from fits [of 5] have "fits_int32 (1000 - min 5 (times_1_25 (CountEnabled sample_env)))"
    by (simp add: count)
  with quiet five one zero wrapped show ?thesis
    by (intro conjI)
qed

text \<open>
  C9 as stated fails: with one enabled masternode the ceiling of 1.25 is 2, so for a request
  of 5 at tip 100 a vote at height 98 lies in the stated window, but the code clamps the
  request to 1 and announces nothing.
\<close>

theorem sync_ceiling_counterexample:
  "Sync (sample_env\<lparr>Tip := Some 100, CountEnabled := 1\<rparr>) (ledger_of [vote_at 7 98 9]) 5
     = [SyncStatusCount 0]
   \<and> mapMasternodePayeeVotes (ledger_of [vote_at 7 98 9]) = [(589922, vote_at 7 98 9)]
   \<and> 100 - min 5 \<lceil>1.25 * real (CountEnabled (sample_env\<lparr>Tip := Some 100, CountEnabled := 1\<rparr>))\<rceil>
        \<le> nBlockHeight (vote_at 7 98 9)
   \<and> nBlockHeight (vote_at 7 98 9) \<le> 100 + 20"
proof -
  let ?env = "sample_env\<lparr>Tip := Some 100, CountEnabled := 1\<rparr>"
  have tip: "Tip ?env = Some 100"
    by simp
  have before: "mapMasternodePayeeVotes (ledger_of [vote_at 7 98 9]) = [(589922, vote_at 7 98 9)]"
    by (simp add: ledger_one)
  have height: "nBlockHeight (vote_at 7 98 9) = 98"
    by (simp add: vote_at_def)
  have sync: "Sync ?env (ledger_of [vote_at 7 98 9]) 5 = [SyncStatusCount 0]"
    unfolding Sync_tip [OF tip] before by (simp add: times_1_25_def height int32_def)
  have "\<lceil>1.25 * real (CountEnabled ?env)\<rceil> = 2"
    by (simp add: ceiling_eq_iff)
  then have low: "100 - min 5 \<lceil>1.25 * real (CountEnabled ?env)\<rceil> \<le> nBlockHeight (vote_at 7 98 9)"
    by (simp add: height)
  have high: "nBlockHeight (vote_at 7 98 9) \<le> 100 + 20"
    by (simp add: height)
  from sync before low high show ?thesis
    by (intro conjI)
qed

text \<open>
  C10: \<open>Clear\<close> empties the vote index and the tallies and keeps the last-vote record, so a
  vote whose key and height are on record is refused by \<open>CanVote\<close> after the reset as before.
\<close>

theorem Clear_keeps_last_vote:
  "mapMasternodePayeeVotes (Clear s) = []
   \<and> mapMasternodeBlocks (Clear s) = Map.empty
   \<and> mapMasternodesLastVote (Clear s) = mapMasternodesLastVote s
   \<and> (mapMasternodesLastVote s (CanVote_key env w) = Some (nBlockHeight w)
        \<longrightarrow> CanVote env (Clear s) w = (False, Clear s))
   \<and> fst (CanVote env (Clear s) w) = fst (CanVote env s w)"
  by (simp add: Clear_def CanVote_def Let_def split: option.splits)

theorem Clear_keeps_last_vote_witness:
  "fst (CanVote sample_env empty_ledger (vote_at 7 995 9))
   \<and> mapMasternodesLastVote (snd (CanVote sample_env empty_ledger (vote_at 7 995 9)))
        (CanVote_key sample_env (vote_at 7 995 9)) = Some 995
   \<and> CanVote sample_env (Clear (snd (CanVote sample_env empty_ledger (vote_at 7 995 9))))
        (vote_at 7 995 9)
      = (False, Clear (snd (CanVote sample_env empty_ledger (vote_at 7 995 9))))"
proof -
  let ?w = "vote_at 7 995 9"
  let ?s = "snd (CanVote sample_env empty_ledger ?w)"
  have first: "fst (CanVote sample_env empty_ledger ?w)"
    by (simp add: CanVote_def Let_def empty_ledger_def)
  have rec: "mapMasternodesLastVote ?s (CanVote_key sample_env ?w) = Some 995"
    by (simp add: CanVote_def Let_def empty_ledger_def vote_at_def)
  then have "mapMasternodesLastVote ?s (CanVote_key sample_env ?w) = Some (nBlockHeight ?w)"
    by (simp add: vote_at_def)
  with Clear_keeps_last_vote [of ?s sample_env ?w]
  have "CanVote sample_env (Clear ?s) ?w = (False, Clear ?s)"
    by blast
  with first rec show ?thesis
    by (intro conjI)
qed

subsection \<open>Duplicate votes\<close>

lemma map_of_map_store:
  "map_of (map_store k v xs) k = Some v"
  by (induction xs) auto

lemma AddWinningMasternode_True:
  assumes "AddWinningMasternode env s w = (True, s')"
  shows "map_of (mapMasternodePayeeVotes s') (GetHash env w) = Some w"
    and "mapMasternodesLastVote s' = mapMasternodesLastVote s"
  using assms
  by (auto simp: AddWinningMasternode_def Let_def map_of_map_store
      split: option.splits if_splits)

lemma AddWinningMasternode_False:
  "AddWinningMasternode env s w = (False, s') \<Longrightarrow> s' = s"
  by (auto simp: AddWinningMasternode_def Let_def split: option.splits if_splits)

lemma ProcessMessage_mnw_reaches_window:
  assumes "IsBlockchainSynced env" and "\<not> fLiteMode env"
    and "\<not> peer_nVersion env < ActiveProtocol env"
    and "GetPhase env w \<noteq> 0" and "GetPayeePhase env w \<noteq> 0"
    and "Tip env = Some tip"
  shows "ProcessMessage_mnw env s w =
     (if map_of (mapMasternodePayeeVotes s) (GetHash env w) \<noteq> None then (Duplicate, s)
      else if nBlockHeight w < tip - times_1_25 (CountEnabledOnLevel env (GetPayeePhase env w))
              \<or> nBlockHeight w > tip + 20
      then (OutOfWindow, s)
      else if \<not> IsValid env w then (NotValid, s)
      else if \<not> fst (CanVote env s w) then (AlreadyVoted, snd (CanVote env s w))
      else if \<not> SignatureValid env w then (BadSignature, snd (CanVote env s w))
      else if fst (AddWinningMasternode env (snd (CanVote env s w)) w)
      then (Accepted, snd (AddWinningMasternode env (snd (CanVote env s w)) w))
      else (NotAdded, snd (AddWinningMasternode env (snd (CanVote env s w)) w)))"
  using assms
  by (simp add: ProcessMessage_mnw_def Let_def split: prod.splits bool.splits)

lemma ProcessMessage_mnw_Accepted:
  assumes "ProcessMessage_mnw env s w = (Accepted, s')"
  shows "IsBlockchainSynced env \<and> \<not> fLiteMode env
       \<and> \<not> peer_nVersion env < ActiveProtocol env
       \<and> GetPhase env w \<noteq> 0 \<and> GetPayeePhase env w \<noteq> 0
       \<and> Tip env \<noteq> None
       \<and> fst (CanVote env s w)
       \<and> AddWinningMasternode env (snd (CanVote env s w)) w = (True, s')"
proof -
  from assms have flags: "IsBlockchainSynced env" "\<not> fLiteMode env"
      "\<not> peer_nVersion env < ActiveProtocol env"
      "GetPhase env w \<noteq> 0" "GetPayeePhase env w \<noteq> 0"
    by (auto simp: ProcessMessage_mnw_def split: if_splits)
  from assms flags obtain tip where tip: "Tip env = Some tip"
    by (cases "Tip env") (auto simp: ProcessMessage_mnw_def)
  note eq = ProcessMessage_mnw_reaches_window [OF flags tip, of s]
  from assms have "fst (CanVote env s w)"
      and "fst (AddWinningMasternode env (snd (CanVote env s w)) w)"
      and "snd (AddWinningMasternode env (snd (CanVote env s w)) w) = s'"
    unfolding eq by (auto split: if_splits)
  then have "fst (CanVote env s w)"
      and "AddWinningMasternode env (snd (CanVote env s w)) w = (True, s')"
    by (auto simp: prod_eq_iff)
  with flags tip show ?thesis
    by simp
qed

text \<open>
  C8: a vote that has just been accepted is refused as a duplicate when the same message is
  processed again under the same environment, and the whole ledger stays as the first call
  left it; likewise a second \<open>AddWinningMasternode\<close> of the same vote returns false and
  changes nothing.
\<close>

theorem second_add_is_duplicate:
  "(ProcessMessage_mnw env s w = (Accepted, s')
      \<longrightarrow> ProcessMessage_mnw env s' w = (Duplicate, s'))
   \<and> (AddWinningMasternode env s w = (True, s')
      \<longrightarrow> AddWinningMasternode env s' w = (False, s'))"
proof (intro conjI impI)
  assume "ProcessMessage_mnw env s w = (Accepted, s')"
  note a = ProcessMessage_mnw_Accepted [OF this]
  from a obtain tip where tip: "Tip env = Some tip"
    by auto
  from a have known: "map_of (mapMasternodePayeeVotes s') (GetHash env w) \<noteq> None"
    using AddWinningMasternode_True(1) [of env "snd (CanVote env s w)" w s'] by simp
  from a have flags: "IsBlockchainSynced env" "\<not> fLiteMode env"
      "\<not> peer_nVersion env < ActiveProtocol env"
      "GetPhase env w \<noteq> 0" "GetPayeePhase env w \<noteq> 0"
    by simp_all
  from known show "ProcessMessage_mnw env s' w = (Duplicate, s')"
    unfolding ProcessMessage_mnw_reaches_window [OF flags tip] by simp
next
  assume "AddWinningMasternode env s w = (True, s')"
  from AddWinningMasternode_True(1) [OF this]
  show "AddWinningMasternode env s' w = (False, s')"
    by (simp add: AddWinningMasternode_def split: option.splits)
qed

lemma sample_key:
  "CanVote_key sample_env (vote_at v h p) = v * 16 + 1"
  by (simp add: CanVote_key_def vote_key_def sample_phases vote_at_def push_bit_eq_mult)

lemma sample_accept:
  assumes "990 \<le> h" and "h \<le> 1020"
    and "map_of (mapMasternodePayeeVotes s) (p * 65536 + word_of_int h) = None"
    and "mapMasternodesLastVote s (v * 16 + 1) \<noteq> Some h"
  shows "fst (ProcessMessage_mnw sample_env s (vote_at v h p)) = Accepted"
    and "mapMasternodePayeeVotes (snd (ProcessMessage_mnw sample_env s (vote_at v h p)))
          = map_store (p * 65536 + word_of_int h) (vote_at v h p) (mapMasternodePayeeVotes s)"
    and "mapMasternodesLastVote (snd (ProcessMessage_mnw sample_env s (vote_at v h p)))
          = (mapMasternodesLastVote s)(v * 16 + 1 \<mapsto> h)"
proof -
  let ?w = "vote_at v h p"
  have h: "nBlockHeight ?w = h"
    by (simp add: vote_at_def)
  have pre: "GetPhase sample_env ?w \<noteq> 0" "GetPayeePhase sample_env ?w \<noteq> 0"
    by (simp_all add: sample_phases)
  from assms(4) have voted: "fst (CanVote sample_env s ?w)"
    and guard: "mapMasternodesLastVote (snd (CanVote sample_env s ?w))
          = (mapMasternodesLastVote s)(v * 16 + 1 \<mapsto> h)"
    using CanVote_fresh [of s sample_env ?w] by (simp_all add: sample_key h)
  from assms(3)
  have fresh: "map_of (mapMasternodePayeeVotes (snd (CanVote sample_env s ?w)))
      (GetHash sample_env ?w) = None"
    by (simp add: CanVote_votes sample_hash_vote)
  then have add: "fst (AddWinningMasternode sample_env (snd (CanVote sample_env s ?w)) ?w)"
    by (intro AddWinningMasternode_fresh) (simp_all add: sample_checks)
  have eq: "ProcessMessage_mnw sample_env s ?w =
      (Accepted, snd (AddWinningMasternode sample_env (snd (CanVote sample_env s ?w)) ?w))"
    unfolding ProcessMessage_mnw_reaches_window [OF sample_window(3-5) pre sample_window(1)]
    using assms(1-3) add voted
    by (simp add: sample_window sample_checks times_1_25_def h sample_hash_vote)
  show "fst (ProcessMessage_mnw sample_env s ?w) = Accepted"
    by (simp add: eq)
  show "mapMasternodePayeeVotes (snd (ProcessMessage_mnw sample_env s ?w))
          = map_store (p * 65536 + word_of_int h) ?w (mapMasternodePayeeVotes s)"
    using sample_add [OF fresh] by (simp add: eq CanVote_votes sample_hash_vote)
  show "mapMasternodesLastVote (snd (ProcessMessage_mnw sample_env s ?w))
          = (mapMasternodesLastVote s)(v * 16 + 1 \<mapsto> h)"
    using AddWinningMasternode_True(2) [of sample_env "snd (CanVote sample_env s ?w)" ?w] add guard
    by (simp add: eq prod_eq_iff)
qed

theorem second_add_is_duplicate_witness:
  "fst (ProcessMessage_mnw sample_env empty_ledger (vote_at 7 995 9)) = Accepted
   \<and> ProcessMessage_mnw sample_env
        (snd (ProcessMessage_mnw sample_env empty_ledger (vote_at 7 995 9))) (vote_at 7 995 9)
      = (Duplicate, snd (ProcessMessage_mnw sample_env empty_ledger (vote_at 7 995 9)))"
proof -
  let ?w = "vote_at 7 995 9"
  have "fst (ProcessMessage_mnw sample_env empty_ledger ?w) = Accepted"
    by (rule sample_accept) (simp_all add: empty_ledger_def)
  then obtain s' where first: "ProcessMessage_mnw sample_env empty_ledger ?w = (Accepted, s')"
    by (cases "ProcessMessage_mnw sample_env empty_ledger ?w") simp
  from second_add_is_duplicate [of sample_env empty_ledger ?w s'] first
  have "ProcessMessage_mnw sample_env s' ?w = (Duplicate, s')"
    by blast
  with first show ?thesis
    by simp
qed

subsection \<open>The snapshot file\<close>

lemma Read_split:
  assumes "length hashIn = 32"
  shows "Read env (Some (vchData @ hashIn)) objToLoad fDryRun =
     (if hashIn \<noteq> Hash env vchData then (IncorrectHash, objToLoad)
      else case ReadString env vchData of
        None \<Rightarrow> (IncorrectFormat, Clear objToLoad)
      | Some (strMagicMessageTmp, ssObj1) \<Rightarrow>
          if strMagicMessage \<noteq> strMagicMessageTmp then (IncorrectMagicMessage, objToLoad)
          else if length ssObj1 < 4 then (IncorrectFormat, Clear objToLoad)
          else if take 4 ssObj1 \<noteq> MessageStart env then (IncorrectMagicNumber, objToLoad)
          else (case ReadPayments env (drop 4 ssObj1) of
            None \<Rightarrow> (IncorrectFormat, Clear objToLoad)
          | Some (votes, blocks) \<Rightarrow>
              (Ok, if \<not> fDryRun
                   then CleanPaymentList env
                          (objToLoad\<lparr>mapMasternodePayeeVotes := votes,
                                     mapMasternodeBlocks := blocks\<rparr>)
                   else objToLoad\<lparr>mapMasternodePayeeVotes := votes,
                                   mapMasternodeBlocks := blocks\<rparr>)))"
  using assms by (simp add: Read_def Let_def split: option.splits prod.splits)

lemma Read_outcome:
  assumes "\<And>r. r \<noteq> Ok \<Longrightarrow> r \<noteq> IncorrectFormat \<Longrightarrow> P (r, objToLoad)"
    and "P (IncorrectFormat, Clear objToLoad)"
    and "\<And>loaded. P (Ok, loaded)"
  shows "P (Read env file objToLoad fDryRun)"
  unfolding Read_def Let_def
  by (simp add: assms split: option.split prod.split)

lemma Read_IncorrectFormat:
  "fst (Read env file objToLoad fDryRun) = IncorrectFormat \<Longrightarrow>
     snd (Read env file objToLoad fDryRun) = Clear objToLoad"
  by (rule Read_outcome [where P = "\<lambda>x. fst x = IncorrectFormat \<longrightarrow> snd x = Clear objToLoad",
        THEN mp]) simp_all

lemma Read_error_keeps_empty:
  assumes "mapMasternodePayeeVotes objToLoad = []"
    and "mapMasternodeBlocks objToLoad = Map.empty"
    and "fst (Read env file objToLoad fDryRun) \<noteq> Ok"
  shows "mapMasternodePayeeVotes (snd (Read env file objToLoad fDryRun)) = []
       \<and> mapMasternodeBlocks (snd (Read env file objToLoad fDryRun)) = Map.empty"
  using assms(3)
  by (rule Read_outcome [where P = "\<lambda>x. fst x \<noteq> Ok \<longrightarrow>
        mapMasternodePayeeVotes (snd x) = [] \<and> mapMasternodeBlocks (snd x) = Map.empty",
        THEN mp, rotated -1])
    (simp_all add: assms(1,2) Clear_def)

text \<open>
  C5: for a file that ends in 32 checksum bytes, \<open>Read\<close> checks in the order checksum, magic
  message, network magic, payload, and each mismatch has its own result. A checksum mismatch
  gives \<open>IncorrectHash\<close> whatever the rest holds, before anything is decoded, a wrong magic
  message \<open>IncorrectMagicMessage\<close>, a wrong network magic \<open>IncorrectMagicNumber\<close>; on these three
  the ledger passed in is returned as it was. A payload that does not decode gives
  \<open>IncorrectFormat\<close>, and whenever \<open>Read\<close> gives \<open>IncorrectFormat\<close> the ledger is \<open>Clear\<close>ed. So
  a load into a ledger that starts empty, as a constructed one does, ends with an empty vote
  index and no tallies on every result other than \<open>Ok\<close>: never partially populated.
\<close>

theorem Read_check_order:
  assumes "length hashIn = 32"
  shows "(hashIn \<noteq> Hash env vchData
            \<longrightarrow> Read env (Some (vchData @ hashIn)) objToLoad fDryRun = (IncorrectHash, objToLoad))
       \<and> (hashIn = Hash env vchData \<and> ReadString env vchData = Some (magic, rest)
            \<and> magic \<noteq> strMagicMessage
            \<longrightarrow> Read env (Some (vchData @ hashIn)) objToLoad fDryRun
                  = (IncorrectMagicMessage, objToLoad))
       \<and> (hashIn = Hash env vchData \<and> ReadString env vchData = Some (strMagicMessage, rest)
            \<and> 4 \<le> length rest \<and> take 4 rest \<noteq> MessageStart env
            \<longrightarrow> Read env (Some (vchData @ hashIn)) objToLoad fDryRun
                  = (IncorrectMagicNumber, objToLoad))
       \<and> (hashIn = Hash env vchData \<and> ReadString env vchData = Some (strMagicMessage, rest)
            \<and> 4 \<le> length rest \<and> take 4 rest = MessageStart env
            \<and> ReadPayments env (drop 4 rest) = None
            \<longrightarrow> Read env (Some (vchData @ hashIn)) objToLoad fDryRun
                  = (IncorrectFormat, Clear objToLoad))
       \<and> (fst (Read env file objToLoad fDryRun) = IncorrectFormat
            \<longrightarrow> snd (Read env file objToLoad fDryRun) = Clear objToLoad)
       \<and> mapMasternodePayeeVotes (Clear objToLoad) = []
       \<and> mapMasternodeBlocks (Clear objToLoad) = Map.empty
       \<and> mapMasternodesLastVote (Clear objToLoad) = mapMasternodesLastVote objToLoad
       \<and> (hashIn \<noteq> Hash env vchData
            \<longrightarrow> Read env (Some (vchData @ hashIn)) empty_ledger fDryRun
                  = (IncorrectHash, empty_ledger)
              \<and> mapMasternodePayeeVotes
                    (snd (Read env (Some (vchData @ hashIn)) empty_ledger fDryRun)) = []
              \<and> mapMasternodeBlocks
                    (snd (Read env (Some (vchData @ hashIn)) empty_ledger fDryRun)) = Map.empty)
       \<and> (mapMasternodePayeeVotes objToLoad = [] \<and> mapMasternodeBlocks objToLoad = Map.empty
            \<and> fst (Read env file objToLoad fDryRun) \<noteq> Ok
            \<longrightarrow> mapMasternodePayeeVotes (snd (Read env file objToLoad fDryRun)) = []
              \<and> mapMasternodeBlocks (snd (Read env file objToLoad fDryRun)) = Map.empty)"
proof -
  have order: "(hashIn \<noteq> Hash env vchData
            \<longrightarrow> Read env (Some (vchData @ hashIn)) obj fDryRun = (IncorrectHash, obj))
       \<and> (hashIn = Hash env vchData \<and> ReadString env vchData = Some (magic, rest)
            \<and> magic \<noteq> strMagicMessage
            \<longrightarrow> Read env (Some (vchData @ hashIn)) obj fDryRun = (IncorrectMagicMessage, obj))
       \<and> (hashIn = Hash env vchData \<and> ReadString env vchData = Some (strMagicMessage, rest)
            \<and> 4 \<le> length rest \<and> take 4 rest \<noteq> MessageStart env
            \<longrightarrow> Read env (Some (vchData @ hashIn)) obj fDryRun = (IncorrectMagicNumber, obj))
       \<and> (hashIn = Hash env vchData \<and> ReadString env vchData = Some (strMagicMessage, rest)
            \<and> 4 \<le> length rest \<and> take 4 rest = MessageStart env
            \<and> ReadPayments env (drop 4 rest) = None
            \<longrightarrow> Read env (Some (vchData @ hashIn)) obj fDryRun = (IncorrectFormat, Clear obj))"
    for obj
    unfolding Read_split [OF assms] by auto
  have cleared: "mapMasternodePayeeVotes (Clear objToLoad) = []
       \<and> mapMasternodeBlocks (Clear objToLoad) = Map.empty
       \<and> mapMasternodesLastVote (Clear objToLoad) = mapMasternodesLastVote objToLoad"
    by (simp add: Clear_def)
  have format: "fst (Read env file objToLoad fDryRun) = IncorrectFormat
            \<longrightarrow> snd (Read env file objToLoad fDryRun) = Clear objToLoad"
    by (simp add: Read_IncorrectFormat)
  have fresh: "hashIn \<noteq> Hash env vchData
            \<longrightarrow> Read env (Some (vchData @ hashIn)) empty_ledger fDryRun
                  = (IncorrectHash, empty_ledger)
              \<and> mapMasternodePayeeVotes
                    (snd (Read env (Some (vchData @ hashIn)) empty_ledger fDryRun)) = []
              \<and> mapMasternodeBlocks
                    (snd (Read env (Some (vchData @ hashIn)) empty_ledger fDryRun)) = Map.empty"
    using order [of empty_ledger] by (simp add: empty_ledger_def)
  have errors: "mapMasternodePayeeVotes objToLoad = [] \<and> mapMasternodeBlocks objToLoad = Map.empty
            \<and> fst (Read env file objToLoad fDryRun) \<noteq> Ok
            \<longrightarrow> mapMasternodePayeeVotes (snd (Read env file objToLoad fDryRun)) = []
              \<and> mapMasternodeBlocks (snd (Read env file objToLoad fDryRun)) = Map.empty"
    using Read_error_keeps_empty by blast
  note o = order [of objToLoad]
  from o [THEN conjunct1] o [THEN conjunct2, THEN conjunct1]
    o [THEN conjunct2, THEN conjunct2, THEN conjunct1]
    o [THEN conjunct2, THEN conjunct2, THEN conjunct2]
    format cleared [THEN conjunct1] cleared [THEN conjunct2, THEN conjunct1]
    cleared [THEN conjunct2, THEN conjunct2] fresh errors
  show ?thesis
    by (intro conjI)
qed

lemma sample_storage:
  "Hash sample_env bytes = replicate 32 (of_nat (length bytes))"
  "MessageStart sample_env = [1, 2, 3, 4]"
  "ReadString sample_env (1 # bytes) = Some (strMagicMessage, bytes)"
  "ReadString sample_env (2 # bytes) = Some ([], bytes)"
  "ReadPayments sample_env bytes = None"
  by (simp_all add: sample_env_def sample_ReadString_def)

theorem Read_check_order_witness:
  "Read sample_env (Some ([1, 1, 2, 3, 4] @ replicate 32 0)) empty_ledger False
      = (IncorrectHash, empty_ledger)
   \<and> mapMasternodePayeeVotes
        (snd (Read sample_env (Some ([1, 1, 2, 3, 4] @ replicate 32 0)) empty_ledger False)) = []
   \<and> Read sample_env (Some ([2, 1, 2, 3, 4] @ replicate 32 5)) empty_ledger False
      = (IncorrectMagicMessage, empty_ledger)
   \<and> Read sample_env (Some ([1, 9, 9, 9, 9] @ replicate 32 5)) empty_ledger False
      = (IncorrectMagicNumber, empty_ledger)
   \<and> Read sample_env (Some ([1, 1, 2, 3, 4] @ replicate 32 5)) (ledger_of [vote_at 7 995 9]) False
      = (IncorrectFormat, Clear (ledger_of [vote_at 7 995 9]))"
proof -
  have len: "length (replicate 32 (b :: byte)) = 32" for b
    by simp
  have differs: "replicate 32 (0 :: byte) \<noteq> Hash sample_env [1, 1, 2, 3, 4]"
    by (simp add: sample_storage)
  note fresh = Read_check_order [OF len, where env = sample_env and vchData = "[1, 1, 2, 3, 4]"
      and fDryRun = False, THEN conjunct2, THEN conjunct2, THEN conjunct2, THEN conjunct2,
      THEN conjunct2, THEN conjunct2, THEN conjunct2, THEN conjunct2, THEN conjunct1,
      THEN mp, OF differs]
  note hash = fresh [THEN conjunct1] and empty = fresh [THEN conjunct2, THEN conjunct1]
  have m: "replicate 32 (5 :: byte) = Hash sample_env [2, 1, 2, 3, 4]
      \<and> ReadString sample_env [2, 1, 2, 3, 4] = Some ([], [1, 2, 3, 4])
      \<and> [] \<noteq> strMagicMessage"
    by (simp add: sample_storage strMagicMessage_def)
  note message = Read_check_order [OF len, where objToLoad = empty_ledger and fDryRun = False,
      THEN conjunct2, THEN conjunct1, THEN mp, OF m]
  have n: "replicate 32 (5 :: byte) = Hash sample_env [1, 9, 9, 9, 9]
      \<and> ReadString sample_env [1, 9, 9, 9, 9] = Some (strMagicMessage, [9, 9, 9, 9])
      \<and> 4 \<le> length [9, 9, 9, 9 :: byte]
      \<and> take 4 [9, 9, 9, 9] \<noteq> MessageStart sample_env"
    by (simp add: sample_storage)
  note number = Read_check_order [OF len, where objToLoad = empty_ledger and fDryRun = False,
      THEN conjunct2, THEN conjunct2, THEN conjunct1, THEN mp, OF n]
  have f: "replicate 32 (5 :: byte) = Hash sample_env [1, 1, 2, 3, 4]
      \<and> ReadString sample_env [1, 1, 2, 3, 4] = Some (strMagicMessage, [1, 2, 3, 4])
      \<and> 4 \<le> length [1, 2, 3, 4 :: byte]
      \<and> take 4 [1, 2, 3, 4] = MessageStart sample_env
      \<and> ReadPayments sample_env (drop 4 [1, 2, 3, 4]) = None"
    by (simp add: sample_storage)
  note format = Read_check_order [OF len, where objToLoad = "ledger_of [vote_at 7 995 9]"
      and fDryRun = False,
      THEN conjunct2, THEN conjunct2, THEN conjunct2, THEN conjunct1, THEN mp, OF f]
  from hash empty message number format show ?thesis
    by (intro conjI)
qed

subsection \<open>The last-vote guard\<close>

lemma AddWinningMasternode_lastVote:
  "mapMasternodesLastVote (snd (AddWinningMasternode env s w)) = mapMasternodesLastVote s"
  by (simp add: AddWinningMasternode_def Let_def split: option.splits)

lemma CanVote_lastVote:
  "mapMasternodesLastVote (snd (CanVote env s w)) =
     (if fst (CanVote env s w)
      then (mapMasternodesLastVote s)(CanVote_key env w \<mapsto> nBlockHeight w)
      else mapMasternodesLastVote s)"
  by (simp add: CanVote_def Let_def split: option.splits)

lemma CanVote_iff:
  "fst (CanVote env s w) \<longleftrightarrow>
     mapMasternodesLastVote s (CanVote_key env w) \<noteq> Some (nBlockHeight w)"
  by (simp add: CanVote_def Let_def split: option.splits)

lemma ProcessMessage_mnw_state:
  "snd (ProcessMessage_mnw env s w) = s
   \<or> fst (CanVote env s w)
     \<and> (snd (ProcessMessage_mnw env s w) = snd (CanVote env s w)
        \<or> snd (ProcessMessage_mnw env s w)
            = snd (AddWinningMasternode env (snd (CanVote env s w)) w))"
proof (cases "IsBlockchainSynced env \<and> \<not> fLiteMode env
    \<and> \<not> peer_nVersion env < ActiveProtocol env
    \<and> GetPhase env w \<noteq> 0 \<and> GetPayeePhase env w \<noteq> 0")
  case False
  then have "snd (ProcessMessage_mnw env s w) = s"
    by (auto simp: ProcessMessage_mnw_def)
  then show ?thesis ..
next
  case flags: True
  show ?thesis
  proof (cases "Tip env")
    case None
    with flags have "snd (ProcessMessage_mnw env s w) = s"
      by (simp add: ProcessMessage_mnw_def)
    then show ?thesis ..
  next
    case (Some tip)
    from flags have f: "IsBlockchainSynced env" "\<not> fLiteMode env"
        "\<not> peer_nVersion env < ActiveProtocol env"
        "GetPhase env w \<noteq> 0" "GetPayeePhase env w \<noteq> 0"
      by simp_all
    show ?thesis
      unfolding ProcessMessage_mnw_reaches_window [OF f Some]
      by (simp add: CanVote_iff CanVote_def Let_def split: option.splits)
  qed
qed

lemma ProcessMessage_mnw_lastVote:
  "mapMasternodesLastVote (snd (ProcessMessage_mnw env s w)) = mapMasternodesLastVote s
   \<or> mapMasternodesLastVote (snd (ProcessMessage_mnw env s w))
       = (mapMasternodesLastVote s)(CanVote_key env w \<mapsto> nBlockHeight w)"
  using ProcessMessage_mnw_state [of env s w]
  by (auto simp: AddWinningMasternode_lastVote CanVote_lastVote)

lemma ProcessMessage_mnw_Accepted_lastVote:
  assumes "fst (ProcessMessage_mnw env s w) = Accepted"
  shows "mapMasternodesLastVote s (CanVote_key env w) \<noteq> Some (nBlockHeight w)"
    and "mapMasternodesLastVote (snd (ProcessMessage_mnw env s w))
       = (mapMasternodesLastVote s)(CanVote_key env w \<mapsto> nBlockHeight w)"
proof -
  obtain s' where "ProcessMessage_mnw env s w = (Accepted, s')"
    using assms by (cases "ProcessMessage_mnw env s w") simp
  note a = ProcessMessage_mnw_Accepted [OF this] and r = this
  from a show "mapMasternodesLastVote s (CanVote_key env w) \<noteq> Some (nBlockHeight w)"
    by (simp add: CanVote_iff)
  from a have "mapMasternodesLastVote s' = mapMasternodesLastVote (snd (CanVote env s w))"
    using AddWinningMasternode_True(2) [of env "snd (CanVote env s w)" w s'] by simp
  with a r show "mapMasternodesLastVote (snd (ProcessMessage_mnw env s w))
       = (mapMasternodesLastVote s)(CanVote_key env w \<mapsto> nBlockHeight w)"
    by (simp add: CanVote_lastVote)
qed

lemma add_all_Cons:
  "fst (add_all ((env, w) # calls) s) =
     (if fst (ProcessMessage_mnw env s w) = Accepted
      then (env, w) # fst (add_all calls (snd (ProcessMessage_mnw env s w)))
      else fst (add_all calls (snd (ProcessMessage_mnw env s w))))"
  by (simp split: prod.splits)

lemma add_all_subset:
  "set (fst (add_all calls s)) \<subseteq> set calls"
proof (induction calls arbitrary: s)
  case Nil
  show ?case by simp
next
  case (Cons c calls)
  obtain env w where c: "c = (env, w)"
    by (cases c)
  from Cons.IH [of "snd (ProcessMessage_mnw env s w)"] show ?case
    unfolding c add_all_Cons by auto
qed

lemma key_heights_Cons:
  "key_heights k ((env, w) # calls) =
     (if CanVote_key env w = k then nBlockHeight w # key_heights k calls
      else key_heights k calls)"
  by (simp add: key_heights_def)

lemma no_candidate_no_accepted:
  assumes "h \<notin> set (key_heights k calls)"
  shows "filter (\<lambda>(env, w). CanVote_key env w = k \<and> nBlockHeight w = h)
           (fst (add_all calls s)) = []"
proof -
  have "\<not> (CanVote_key env w = k \<and> nBlockHeight w = h)"
    if "(env, w) \<in> set (fst (add_all calls s))" for env w
  proof -
    from that add_all_subset [of calls s] have "(env, w) \<in> set calls"
      by blast
    with assms show ?thesis
      by (force simp: key_heights_def)
  qed
  then show ?thesis
    by (auto simp: filter_empty_conv)
qed

lemma accepted_in_order:
  assumes "sorted (guard_heights s k @ key_heights k calls)"
  shows "length (filter (\<lambda>(env, w). CanVote_key env w = k \<and> nBlockHeight w = h)
                   (fst (add_all calls s)))
         \<le> (if mapMasternodesLastVote s k = Some h then 0 else 1)"
  using assms
proof (induction calls arbitrary: s)
  case Nil
  show ?case by simp
next
  case (Cons c calls)
  obtain env w where c: "c = (env, w)"
    by (cases c)
  let ?s' = "snd (ProcessMessage_mnw env s w)"
  let ?P = "\<lambda>(env, w). CanVote_key env w = k \<and> nBlockHeight w = h"
  let ?rest = "length (filter ?P (fst (add_all calls ?s')))"
  note step = ProcessMessage_mnw_lastVote [of env s w]
  show ?case
  proof (cases "CanVote_key env w = k")
    case False
    with step have same: "mapMasternodesLastVote ?s' k = mapMasternodesLastVote s k"
      by auto
    then have "guard_heights ?s' k = guard_heights s k"
      by (simp add: guard_heights_def)
    with Cons.prems False have "sorted (guard_heights ?s' k @ key_heights k calls)"
      by (simp add: c key_heights_Cons)
    from Cons.IH [OF this] same
    have bound: "?rest \<le> (if mapMasternodesLastVote s k = Some h then 0 else 1)"
      by simp
    from False have "length (filter ?P (fst (add_all (c # calls) s))) = ?rest"
      unfolding c add_all_Cons by auto
    with bound show ?thesis
      by (simp only:)
  next
    case key: True
    let ?hw = "nBlockHeight w"
    from Cons.prems key have srt: "sorted (guard_heights s k @ ?hw # key_heights k calls)"
      by (simp add: c key_heights_Cons)
    from step key have alt: "mapMasternodesLastVote ?s' k = mapMasternodesLastVote s k
        \<or> mapMasternodesLastVote ?s' k = Some ?hw"
      by auto
    have srt': "sorted (guard_heights ?s' k @ key_heights k calls)"
    proof -
      from alt show ?thesis
      proof
        assume "mapMasternodesLastVote ?s' k = mapMasternodesLastVote s k"
        then have "guard_heights ?s' k = guard_heights s k"
          by (simp add: guard_heights_def)
        with srt show ?thesis
          by (auto simp: sorted_append)
      next
        assume "mapMasternodesLastVote ?s' k = Some ?hw"
        then have "guard_heights ?s' k = [?hw]"
          by (simp add: guard_heights_def)
        with srt show ?thesis
          by (auto simp: sorted_append)
      qed
    qed
    note IH = Cons.IH [OF srt']
    show ?thesis
    proof (cases "fst (ProcessMessage_mnw env s w) = Accepted \<and> ?hw = h")
      case True
      with key ProcessMessage_mnw_Accepted_lastVote [of env s w]
      have before: "mapMasternodesLastVote s k \<noteq> Some h"
        and after: "mapMasternodesLastVote ?s' k = Some h"
        by auto
      from IH after have "?rest = 0"
        by simp
      with True key before show ?thesis
        unfolding c add_all_Cons by simp
    next
      case False
      then have count: "length (filter ?P (fst (add_all (c # calls) s))) = ?rest"
        unfolding c add_all_Cons by auto
      show ?thesis
      proof (cases "mapMasternodesLastVote s k = Some h")
        case False
        with IH show ?thesis
          unfolding count by (simp split: if_splits)
      next
        case guard: True
        show ?thesis
        proof (cases "mapMasternodesLastVote ?s' k = Some h")
          case True
          with IH guard show ?thesis
            unfolding count by simp
        next
          case False
          with alt guard have "mapMasternodesLastVote ?s' k = Some ?hw" and "?hw \<noteq> h"
            by auto
          moreover from guard have "guard_heights s k = [h]"
            by (simp add: guard_heights_def)
          ultimately have "\<forall>x \<in> set (key_heights k calls). h < x"
            using srt by fastforce
          then have "h \<notin> set (key_heights k calls)"
            by auto
          from no_candidate_no_accepted [OF this, of ?s'] guard show ?thesis
            unfolding count by simp
        qed
      qed
    qed
  qed
qed

lemma accepted_count_le:
  "accepted_count calls s voter tier h
     \<le> length (filter (\<lambda>(env, w). CanVote_key env w = vote_key voter tier \<and> nBlockHeight w = h)
                  (fst (add_all calls s)))"
proof -
  have mono: "length (filter P xs) \<le> length (filter Q xs)" if "\<And>x. P x \<Longrightarrow> Q x"
    for P Q :: "Env \<times> CMasternodePaymentWinner \<Rightarrow> bool" and xs
    using that by (induction xs) auto
  show ?thesis
    unfolding accepted_count_def by (rule mono) (auto simp: CanVote_key_def)
qed

text \<open>
  C2 (amended): \<open>CanVote\<close> refuses a vote exactly when the height on record for its key
  \<open>((hash + n) << 4) + tier\<close> is the vote's height, and a vote that passes puts its height on
  record, replacing the one before. So in every run of vote messages in which the heights
  met by a voter's key never decrease (starting from the height on record, if any), the
  voter ends with at most one accepted vote for that tier at each height.
\<close>

theorem one_vote_per_height_in_order:
  "(fst (CanVote env s w) \<longleftrightarrow>
      mapMasternodesLastVote s (CanVote_key env w) \<noteq> Some (nBlockHeight w))
   \<and> mapMasternodesLastVote (snd (CanVote env s w)) (CanVote_key env w) = Some (nBlockHeight w)
   \<and> (sorted (guard_heights s (vote_key voter tier) @ key_heights (vote_key voter tier) calls)
        \<longrightarrow> accepted_count calls s voter tier h \<le> 1)"
proof (intro conjI impI)
  show "fst (CanVote env s w) \<longleftrightarrow>
      mapMasternodesLastVote s (CanVote_key env w) \<noteq> Some (nBlockHeight w)"
    by (rule CanVote_iff)
  show "mapMasternodesLastVote (snd (CanVote env s w)) (CanVote_key env w) = Some (nBlockHeight w)"
    by (simp add: CanVote_lastVote CanVote_iff)
next
  assume "sorted (guard_heights s (vote_key voter tier) @ key_heights (vote_key voter tier) calls)"
  from accepted_in_order [OF this, of h]
  have "length (filter (\<lambda>(env, w). CanVote_key env w = vote_key voter tier \<and> nBlockHeight w = h)
                  (fst (add_all calls s))) \<le> 1"
    by (simp split: if_splits)
  with accepted_count_le [of calls s voter tier h]
  show "accepted_count calls s voter tier h \<le> 1"
    by linarith
qed

lemma sample_run:
  assumes "990 \<le> h1" "h1 \<le> 1020" "990 \<le> h2" "h2 \<le> 1020" "990 \<le> h3" "h3 \<le> 1020"
    and "h1 \<noteq> h2" and "h2 \<noteq> h3"
    and "(p1 * 65536 + word_of_int h1 :: uint256) \<noteq> p2 * 65536 + word_of_int h2"
    and "(p1 * 65536 + word_of_int h1 :: uint256) \<noteq> p3 * 65536 + word_of_int h3"
    and "(p2 * 65536 + word_of_int h2 :: uint256) \<noteq> p3 * 65536 + word_of_int h3"
  shows "fst (add_all [(sample_env, vote_at v h1 p1), (sample_env, vote_at v h2 p2),
                       (sample_env, vote_at v h3 p3)] empty_ledger)
         = [(sample_env, vote_at v h1 p1), (sample_env, vote_at v h2 p2),
            (sample_env, vote_at v h3 p3)]"
proof -
  let ?w1 = "vote_at v h1 p1" and ?w2 = "vote_at v h2 p2" and ?w3 = "vote_at v h3 p3"
  let ?s1 = "snd (ProcessMessage_mnw sample_env empty_ledger ?w1)"
  let ?s2 = "snd (ProcessMessage_mnw sample_env ?s1 ?w2)"
  have e: "mapMasternodePayeeVotes empty_ledger = []" "mapMasternodesLastVote empty_ledger = Map.empty"
    by (simp_all add: empty_ledger_def)
  note r1 = sample_accept [of h1 empty_ledger p1 v, OF assms(1,2)]
  have a1: "fst (ProcessMessage_mnw sample_env empty_ledger ?w1) = Accepted"
    and v1: "mapMasternodePayeeVotes ?s1 = [(p1 * 65536 + word_of_int h1, ?w1)]"
    and l1: "mapMasternodesLastVote ?s1 = [v * 16 + 1 \<mapsto> h1]"
    using r1 by (simp_all add: e)
  note r2 = sample_accept [of h2 ?s1 p2 v, OF assms(3,4)]
  have f2: "map_of (mapMasternodePayeeVotes ?s1) (p2 * 65536 + word_of_int h2) = None"
    using assms(9) by (simp add: v1)
  have g2: "mapMasternodesLastVote ?s1 (v * 16 + 1) \<noteq> Some h2"
    using assms(7) by (simp add: l1)
  have a2: "fst (ProcessMessage_mnw sample_env ?s1 ?w2) = Accepted"
    and v2: "mapMasternodePayeeVotes ?s2
        = map_store (p2 * 65536 + word_of_int h2) ?w2 [(p1 * 65536 + word_of_int h1, ?w1)]"
    and l2: "mapMasternodesLastVote ?s2 (v * 16 + 1) = Some h2"
    using r2 [OF f2 g2] by (simp_all add: v1)
  have f3: "map_of (mapMasternodePayeeVotes ?s2) (p3 * 65536 + word_of_int h3) = None"
    using assms(10,11) by (auto simp: v2)
  have g3: "mapMasternodesLastVote ?s2 (v * 16 + 1) \<noteq> Some h3"
    using assms(8) by (simp add: l2)
  have a3: "fst (ProcessMessage_mnw sample_env ?s2 ?w3) = Accepted"
    by (rule sample_accept(1) [OF assms(5,6) f3 g3])
  show ?thesis
    unfolding add_all_Cons by (simp add: a1 a2 a3)
qed

text \<open>
  C2 as stated fails: the guard keeps one height per key. Voter 7 votes at height 995, then
  at 996, then at 995 again for another payee; the vote at 996 replaces the height on record,
  so the third vote passes \<open>CanVote\<close> and the voter ends with two accepted votes for tier 1 at
  height 995.
\<close>

theorem two_votes_same_height_counterexample:
  "accepted_count
     [(sample_env, vote_at 7 995 9), (sample_env, vote_at 7 996 9), (sample_env, vote_at 7 995 8)]
     empty_ledger \<lparr>out_hash = 7, out_n = 0\<rparr> 1 995 = 2"
proof -
  have "fst (add_all [(sample_env, vote_at 7 995 9), (sample_env, vote_at 7 996 9),
                       (sample_env, vote_at 7 995 8)] empty_ledger)
      = [(sample_env, vote_at 7 995 9), (sample_env, vote_at 7 996 9),
         (sample_env, vote_at 7 995 8)]"
    by (rule sample_run) simp_all
  then show ?thesis
    by (simp add: accepted_count_def sample_phases) (simp add: vote_at_def)
qed

theorem one_vote_per_height_in_order_witness:
  "sorted (guard_heights empty_ledger (vote_key \<lparr>out_hash = 7, out_n = 0\<rparr> 1)
           @ key_heights (vote_key \<lparr>out_hash = 7, out_n = 0\<rparr> 1)
               [(sample_env, vote_at 7 995 9), (sample_env, vote_at 7 995 8),
                (sample_env, vote_at 7 996 9)])
   \<and> accepted_count
        [(sample_env, vote_at 7 995 9), (sample_env, vote_at 7 995 8), (sample_env, vote_at 7 996 9)]
        empty_ledger \<lparr>out_hash = 7, out_n = 0\<rparr> 1 995 \<le> 1"
proof -
  let ?calls = "[(sample_env, vote_at 7 995 9), (sample_env, vote_at 7 995 8),
                 (sample_env, vote_at 7 996 9)]"
  let ?k = "vote_key \<lparr>out_hash = 7, out_n = 0\<rparr> 1"
  have k: "?k = 113"
    by (simp add: vote_key_def push_bit_eq_mult)
  have heights: "key_heights 113 ?calls = [995, 995, 996]"
    by (simp add: key_heights_def sample_key) (simp add: vote_at_def)
  have guard: "guard_heights empty_ledger k' = []" for k'
    by (simp add: guard_heights_def empty_ledger_def)
  have srt: "sorted (guard_heights empty_ledger ?k @ key_heights ?k ?calls)"
    unfolding k heights guard by simp
  from one_vote_per_height_in_order [of sample_env empty_ledger "vote_at 7 995 9"
      "\<lparr>out_hash = 7, out_n = 0\<rparr>" 1 ?calls 995] srt
  have "accepted_count ?calls empty_ledger \<lparr>out_hash = 7, out_n = 0\<rparr> 1 995 \<le> 1"
    by blast
  with srt show ?thesis
    by (intro conjI)
qed

end
